theory Spec2Isabelle
  imports Complex_Main "HOL-Library.Char_ord" "HOL-Library.List_Lexorder"
    "HOL-Library.Product_Lexorder" "HOL-Library.Multiset"
begin

section \<open>Python strings\<close>

text \<open>
  Strings are lists of 8-bit characters; the development covers ASCII text. The comparison
  of two strings (used where pandas sorts group keys) is the lexicographic order on
  character codes, as in Python.
\<close>

definition lower_char :: "char \<Rightarrow> char" where
  "lower_char c =
     (case map_of (zip ''ABCDEFGHIJKLMNOPQRSTUVWXYZ'' ''abcdefghijklmnopqrstuvwxyz'') c of
        Some d \<Rightarrow> d
      | None \<Rightarrow> c)"

text \<open>\<^verbatim>\<open>s.lower()\<close>\<close>

definition str_lower :: "string \<Rightarrow> string" where
  "str_lower s = map lower_char s"

text \<open>\<^verbatim>\<open>s.startswith(p)\<close>\<close>

fun startswith :: "string \<Rightarrow> string \<Rightarrow> bool" where
  "startswith s [] = True"
| "startswith [] (p # ps) = False"
| "startswith (c # cs) (p # ps) = (c = p \<and> startswith cs ps)"

text \<open>\<^verbatim>\<open>sub in s\<close>\<close>

fun contains :: "string \<Rightarrow> string \<Rightarrow> bool" where
  "contains sub [] = (sub = [])"
| "contains sub (c # cs) = (startswith (c # cs) sub \<or> contains sub cs)"

text \<open>
  \<^verbatim>\<open>c.isspace()\<close> on ASCII: the codes 9 to 13 and 28 to 32.
\<close>

definition isspace :: "char \<Rightarrow> bool" where
  "isspace c = (let n = (of_char c :: nat) in (9 \<le> n \<and> n \<le> 13) \<or> (28 \<le> n \<and> n \<le> 32))"

text \<open>\<^verbatim>\<open>s.strip()\<close>\<close>

definition strip :: "string \<Rightarrow> string" where
  "strip s = rev (dropWhile isspace (rev (dropWhile isspace s)))"

text \<open>\<^verbatim>\<open>s.replace(",", "")\<close>\<close>

definition remove_commas :: "string \<Rightarrow> string" where
  "remove_commas s = filter (\<lambda>c. c \<noteq> CHR '','') s"

text \<open>\<^verbatim>\<open>q.split("on")\<close>: the parts between the occurrences of "on", found left to right.\<close>

fun split_on :: "string \<Rightarrow> string list" where
  "split_on [] = [[]]"
| "split_on [c] = [[c]]"
| "split_on (c # d # cs) =
     (if c = CHR ''o'' \<and> d = CHR ''n'' then [] # split_on cs
      else (case split_on (d # cs) of p # ps \<Rightarrow> (c # p) # ps | [] \<Rightarrow> [[c]]))"

text \<open>\<^verbatim>\<open>f"{i}"\<close> for a non-negative integer.\<close>

function str_of_nat :: "nat \<Rightarrow> string" where
  "str_of_nat n =
     (if n < 10 then [''0123456789'' ! n]
      else str_of_nat (n div 10) @ [''0123456789'' ! (n mod 10)])"
  by pat_completeness auto
termination
  by (relation "measure id") auto

declare str_of_nat.simps [simp del]

section \<open>Data frames\<close>

text \<open>
  An exception that leaves a function of the program. \<open>RegexSemantics\<close> marks a search
  pattern holding a regular-expression metacharacter: pandas compiles the pattern of
  \<^verbatim>\<open>str.contains\<close> as a regular expression, which then raises \<^verbatim>\<open>re.error\<close> or matches by
  the pattern's meaning; only literal patterns are modelled. \<open>NotModelled\<close> marks a column
  type that no store built by \<^verbatim>\<open>process_pdf_data\<close> has.
\<close>

datatype error = ValueError | AttributeError | KeyError | InvalidIndexError | TypeError
  | RegexSemantics | NotModelled

text \<open>A cell of an object column: a string, \<^verbatim>\<open>None\<close>, or the missing value NaN.\<close>

datatype obj = Str string | PyNone | NaN

text \<open>A timestamp is a calendar day: year, month, day (the time of day is not modelled).\<close>

type_synonym timestamp = "int \<times> nat \<times> nat"

text \<open>
  A column with its dtype. Amounts are exact rationals; a \<open>None\<close> in a datetime
  column is NaT.
\<close>

datatype column = Object "obj list" | Float64 "rat list" | Datetime64 "timestamp option list"

text \<open>
  A DataFrame: its columns in order, each a label with its values. Labels may repeat.
  A frame whose cells are all objects (as extracted from the PDF) is a \<open>raw_frame\<close>.
\<close>

type_synonym raw_frame = "(string \<times> obj list) list"

type_synonym frame = "(string \<times> column) list"

fun col_len :: "column \<Rightarrow> nat" where
  "col_len (Object xs) = length xs"
| "col_len (Float64 xs) = length xs"
| "col_len (Datetime64 xs) = length xs"

text \<open>\<^verbatim>\<open>len(df)\<close>\<close>

definition nrows :: "frame \<Rightarrow> nat" where
  "nrows df = (case df of [] \<Rightarrow> 0 | (_, c) # _ \<Rightarrow> col_len c)"

definition raw_nrows :: "raw_frame \<Rightarrow> nat" where
  "raw_nrows df = (case df of [] \<Rightarrow> 0 | (_, xs) # _ \<Rightarrow> length xs)"

text \<open>\<^verbatim>\<open>df.empty\<close>: no column or no row.\<close>

definition empty :: "frame \<Rightarrow> bool" where
  "empty df = (df = [] \<or> nrows df = 0)"

text \<open>\<^verbatim>\<open>df[name]\<close>: the columns carrying the label (one: a Series; several: a DataFrame).\<close>

definition getitem :: "(string \<times> 'a) list \<Rightarrow> string \<Rightarrow> (string \<times> 'a) list" where
  "getitem df name = filter (\<lambda>p. fst p = name) df"

text \<open>\<^verbatim>\<open>df[mask]\<close>: the rows at which the boolean mask holds, in every column.\<close>

definition sel :: "bool list \<Rightarrow> 'a list \<Rightarrow> 'a list" where
  "sel bs xs = map fst (filter snd (zip xs bs))"

fun select_col :: "bool list \<Rightarrow> column \<Rightarrow> column" where
  "select_col bs (Object xs) = Object (sel bs xs)"
| "select_col bs (Float64 xs) = Float64 (sel bs xs)"
| "select_col bs (Datetime64 xs) = Datetime64 (sel bs xs)"

definition select_rows :: "bool list \<Rightarrow> frame \<Rightarrow> frame" where
  "select_rows bs df = map (\<lambda>(n, c). (n, select_col bs c)) df"

section \<open>PDF tables to a normalized store: \<^verbatim>\<open>process_pdf_data\<close>\<close>

text \<open>
  A page's table as \<^verbatim>\<open>extract_table\<close> returns it: the header row \<^verbatim>\<open>table[0]\<close> and the data
  rows \<^verbatim>\<open>table[1:]\<close>; a cell of a data row is a string or \<^verbatim>\<open>None\<close>. Header cells are taken
  to be strings. A page without a table (\<^verbatim>\<open>None\<close> or an empty list) is \<open>None\<close>.
\<close>

type_synonym raw_table = "string list \<times> string option list list"

text \<open>
  What opening the document yields: the exception for a wrong password (pdfminer's
  \<^verbatim>\<open>PDFPasswordIncorrect\<close>), any other exception, or the pages' tables.
\<close>

datatype opened = PasswordIncorrect | OtherException | Pdf "raw_table option list"

fun cell_of :: "string option \<Rightarrow> obj" where
  "cell_of None = PyNone"
| "cell_of (Some s) = Str s"

text \<open>
  \<^verbatim>\<open>pd.DataFrame(data, columns=cols)\<close> for a list of rows: rows shorter than the longest are
  padded with \<^verbatim>\<open>None\<close>; a longest row that is not as long as the header raises ValueError.
\<close>

definition DataFrame :: "string option list list \<Rightarrow> string list \<Rightarrow> error + raw_frame" where
  "DataFrame data cols =
     (if data \<noteq> [] \<and> fold max (map length data) 0 \<noteq> length cols then Inl ValueError
      else Inr (map (\<lambda>j. (cols ! j,
                  map (\<lambda>r. if j < length r then cell_of (r ! j) else PyNone) data))
                [0..<length cols]))"

text \<open>\<^verbatim>\<open>cols.duplicated()\<close>: whether the value occurred at an earlier position.\<close>

definition duplicated :: "'a list \<Rightarrow> bool list" where
  "duplicated xs = map (\<lambda>i. xs ! i \<in> set (take i xs)) [0..<length xs]"

text \<open>
  Lines 48 to 50: one pass of the loop body at index \<open>i\<close>, on the labels as they are now.
\<close>

definition dedup_step :: "nat \<Rightarrow> string list \<Rightarrow> string list" where
  "dedup_step i cols =
     (if duplicated cols ! i then cols[i := cols ! i @ ''_'' @ str_of_nat i] else cols)"

definition dedup_columns :: "string list \<Rightarrow> string list" where
  "dedup_columns cols = fold dedup_step [0..<length cols] cols"

text \<open>Lines 46 to 51: the frame of one page, with its labels deduplicated.\<close>

definition page_frame :: "raw_table \<Rightarrow> error + raw_frame" where
  "page_frame table =
     (case DataFrame (snd table) (fst table) of
        Inl e \<Rightarrow> Inl e
      | Inr df \<Rightarrow> Inr (zip (dedup_columns (map fst df)) (map snd df)))"

text \<open>Lines 43 to 52: the loop over the pages, appending to \<^verbatim>\<open>all_data\<close>.\<close>

fun read_pages :: "raw_table option list \<Rightarrow> raw_frame list \<Rightarrow> error + raw_frame list" where
  "read_pages [] all_data = Inr all_data"
| "read_pages (None # ps) all_data = read_pages ps all_data"
| "read_pages (Some t # ps) all_data =
     (case page_frame t of
        Inl e \<Rightarrow> Inl e
      | Inr df \<Rightarrow> read_pages ps (all_data @ [df]))"

text \<open>\<^verbatim>\<open>Index.unique()\<close>: the values in order of first occurrence.\<close>

definition unique :: "'a list \<Rightarrow> 'a list" where
  "unique xs = rev (remdups (rev xs))"

text \<open>
  \<^verbatim>\<open>pd.concat(dfs, ignore_index=True)\<close>. Frames with one and the same column index are stacked
  position by position. Otherwise the columns are the union of the labels in order of first
  occurrence, every frame is reindexed to it (a missing column is all NaN), and a frame with
  a repeated label cannot be reindexed: InvalidIndexError.
\<close>

definition pd_concat :: "raw_frame list \<Rightarrow> error + raw_frame" where
  "pd_concat dfs =
     (case dfs of
        [] \<Rightarrow> Inl ValueError
      | d # _ \<Rightarrow>
          if list_all (\<lambda>f. map fst f = map fst d) dfs
          then Inr (map (\<lambda>j. (fst (d ! j), concat (map (\<lambda>f. snd (f ! j)) dfs))) [0..<length d])
          else if list_ex (\<lambda>f. \<not> distinct (map fst f)) dfs then Inl InvalidIndexError
          else Inr (map (\<lambda>c. (c, concat (map (\<lambda>f. case map_of f c of
                                                     Some xs \<Rightarrow> xs
                                                   | None \<Rightarrow> replicate (raw_nrows f) NaN) dfs)))
                     (unique (concat (map (map fst) dfs)))))"

text \<open>
  Lines 63 to 66: \<^verbatim>\<open>next((c for c in columns if ... in str(c).lower()), None)\<close>, the first
  label of the table that holds a trigger of the role, or \<^verbatim>\<open>None\<close>.
\<close>

definition date_col :: "string list \<Rightarrow> string option" where
  "date_col columns = find (\<lambda>c. contains ''date'' (str_lower c)) columns"

definition debit_col :: "string list \<Rightarrow> string option" where
  "debit_col columns =
     find (\<lambda>c. contains ''debit'' (str_lower c) \<or> contains ''withdraw'' (str_lower c)) columns"

definition credit_col :: "string list \<Rightarrow> string option" where
  "credit_col columns =
     find (\<lambda>c. contains ''credit'' (str_lower c) \<or> contains ''deposit'' (str_lower c)) columns"

definition ref_col :: "string list \<Rightarrow> string option" where
  "ref_col columns =
     find (\<lambda>c. contains ''ref'' (str_lower c) \<or> contains ''particular'' (str_lower c)) columns"

text \<open>Line 67: \<^verbatim>\<open>[c for c in [...] if c]\<close>; \<^verbatim>\<open>None\<close> and the empty string are falsy.\<close>

primrec truthy :: "string option list \<Rightarrow> string list" where
  "truthy [] = []"
| "truthy (x # xs) =
     (case x of
        Some c \<Rightarrow> if c \<noteq> [] then c # truthy xs else truthy xs
      | None \<Rightarrow> truthy xs)"

definition keep_cols :: "string list \<Rightarrow> string list" where
  "keep_cols columns =
     truthy [date_col columns, debit_col columns, credit_col columns, ref_col columns]"

text \<open>
  Lines 70 to 74: \<^verbatim>\<open>if col: rename_map[col] = name\<close>, in the order Date, Debit, Credit,
  Reference; a later assignment to the same key replaces the earlier one.
\<close>

definition put :: "string option \<Rightarrow> string \<Rightarrow> (string \<rightharpoonup> string) \<Rightarrow> (string \<rightharpoonup> string)" where
  "put col name m = (case col of Some c \<Rightarrow> if c \<noteq> [] then m(c \<mapsto> name) else m | None \<Rightarrow> m)"

definition rename_map :: "string list \<Rightarrow> (string \<rightharpoonup> string)" where
  "rename_map columns =
     put (ref_col columns) ''Reference'' (put (credit_col columns) ''Credit''
       (put (debit_col columns) ''Debit'' (put (date_col columns) ''Date'' Map.empty)))"

text \<open>\<^verbatim>\<open>df[keep_cols]\<close>: for each label of the list, every column that carries it.\<close>

definition getitem_list :: "(string \<times> 'a) list \<Rightarrow> string list \<Rightarrow> (string \<times> 'a) list" where
  "getitem_list df keep = concat (map (getitem df) keep)"

text \<open>\<^verbatim>\<open>df.rename(columns=m)\<close>\<close>

definition rename :: "(string \<rightharpoonup> string) \<Rightarrow> (string \<times> 'a) list \<Rightarrow> (string \<times> 'a) list" where
  "rename m df = map (\<lambda>(n, xs). (case m n of Some n' \<Rightarrow> n' | None \<Rightarrow> n, xs)) df"

text \<open>
  Line 78 on one cell, for the library's number parser \<open>num\<close> (\<open>None\<close>: not a number):
  \<^verbatim>\<open>astype(str)\<close>, commas removed, stripped, parsed, and 0 where the parse fails. A missing
  cell reads "None" or "nan" as a string, which is no number.
\<close>

fun amount :: "(string \<Rightarrow> rat option) \<Rightarrow> obj \<Rightarrow> rat" where
  "amount num (Str s) = (case num (strip (remove_commas s)) of Some v \<Rightarrow> v | None \<Rightarrow> 0)"
| "amount num PyNone = 0"
| "amount num NaN = 0"

text \<open>
  Line 80 on one cell, for the library's date parser \<open>dt\<close>: a string that does not parse,
  and a missing cell, become NaT.
\<close>

fun stamp :: "(string \<Rightarrow> timestamp option) \<Rightarrow> obj \<Rightarrow> timestamp option" where
  "stamp dt (Str s) = dt s"
| "stamp dt PyNone = None"
| "stamp dt NaN = None"

definition coerce_column ::
  "(string \<Rightarrow> rat option) \<Rightarrow> (string \<Rightarrow> timestamp option) \<Rightarrow> string \<Rightarrow> obj list \<Rightarrow> column" where
  "coerce_column num dt name xs =
     (if name = ''Debit'' \<or> name = ''Credit'' then Float64 (map (amount num) xs)
      else if name = ''Date'' then Datetime64 (map (stamp dt) xs)
      else Object xs)"

text \<open>
  Lines 76 to 80. Where two columns carry the label, \<^verbatim>\<open>df[col]\<close> is a DataFrame: it has no
  \<^verbatim>\<open>.str\<close> (AttributeError), and \<^verbatim>\<open>pd.to_datetime\<close> of it finds no year, month and day
  columns (ValueError).
\<close>

definition coerce_types ::
  "(string \<Rightarrow> rat option) \<Rightarrow> (string \<Rightarrow> timestamp option) \<Rightarrow> raw_frame \<Rightarrow> error + frame" where
  "coerce_types num dt df =
     (if 1 < length (getitem df ''Debit'') \<or> 1 < length (getitem df ''Credit'')
      then Inl AttributeError
      else if 1 < length (getitem df ''Date'') then Inl ValueError
      else Inr (map (\<lambda>(n, xs). (n, coerce_column num dt n xs)) df))"

text \<open>Lines 61 to 81: the concatenated table to the store.\<close>

definition normalize ::
  "(string \<Rightarrow> rat option) \<Rightarrow> (string \<Rightarrow> timestamp option) \<Rightarrow> raw_frame \<Rightarrow> error + frame" where
  "normalize num dt df =
     (let columns = map fst df
      in if keep_cols columns = [] then Inr []
         else coerce_types num dt
                (rename (rename_map columns) (getitem_list df (keep_cols columns))))"

text \<open>
  \<^verbatim>\<open>process_pdf_data\<close>, from the opened document on. \<open>Inl e\<close> is an exception that leaves
  the function, \<open>Inr None\<close> the return value \<^verbatim>\<open>None\<close>. When an exception is raised inside
  the \<^verbatim>\<open>try\<close> (opening the document, or building a page's DataFrame), Python evaluates
  the expression of the first \<^verbatim>\<open>except\<close> clause, \<^verbatim>\<open>pdfplumber.pdf.PDFPasswordError\<close>.
  The module \<^verbatim>\<open>pdfplumber.pdf\<close> has no attribute of that name, so the evaluation raises
  AttributeError, which no clause catches: neither \<^verbatim>\<open>return None\<close> is ever reached.
\<close>

definition process_pdf_data ::
  "(string \<Rightarrow> rat option) \<Rightarrow> (string \<Rightarrow> timestamp option) \<Rightarrow> opened \<Rightarrow> error + frame option" where
  "process_pdf_data num dt file =
     (case file of
        PasswordIncorrect \<Rightarrow> Inl AttributeError
      | OtherException \<Rightarrow> Inl AttributeError
      | Pdf pages \<Rightarrow>
          (case read_pages pages [] of
             Inl e \<Rightarrow> Inl AttributeError
           | Inr all_data \<Rightarrow>
               if all_data = [] then Inr (Some [])
               else (case pd_concat all_data of
                       Inl e \<Rightarrow> Inl e
                     | Inr df \<Rightarrow> (case normalize num dt df of
                                   Inl e \<Rightarrow> Inl e
                                 | Inr out \<Rightarrow> Inr (Some out)))))"

section \<open>The session and the Process PDF button\<close>

text \<open>
  The part of \<^verbatim>\<open>st.session_state\<close> the handler can reach: the store \<^verbatim>\<open>df\<close> (\<open>None\<close>
  before the first successful upload) and the current \<^verbatim>\<open>query\<close>.
\<close>

record session =
  session_df :: "frame option"
  session_query :: string

text \<open>
  What the handler shows after the click: the success message, the warning, nothing (the
  result is \<^verbatim>\<open>None\<close>), or the trace of an exception that nothing caught.
\<close>

datatype notice = Success | Warning | NoNotice | Uncaught error

text \<open>
  Lines 97 to 103, on a click with a document at hand. An exception that leaves
  \<^verbatim>\<open>process_pdf_data\<close> ends the script run before any assignment.
\<close>

definition process_button ::
  "(string \<Rightarrow> rat option) \<Rightarrow> (string \<Rightarrow> timestamp option) \<Rightarrow> session \<Rightarrow> opened
     \<Rightarrow> session \<times> notice" where
  "process_button num dt st file =
     (case process_pdf_data num dt file of
        Inl e \<Rightarrow> (st, Uncaught e)
      | Inr None \<Rightarrow> (st, NoNotice)
      | Inr (Some d) \<Rightarrow> if \<not> empty d then (st\<lparr>session_df := Some d\<rparr>, Success) else (st, Warning))"

section \<open>Aggregation library\<close>

text \<open>
  The sum of a numeric column is the library's. A column that \<^verbatim>\<open>to_numeric\<close> made float64
  is added with rounding, one it made int64 is added with wrap-around, and the order of the
  additions is the library's too. The functions below therefore take the sum as a parameter:
  \<open>colsum col vs\<close> is what the library returns for the values \<open>vs\<close>, in row order, taken
  from the column \<open>col\<close>.
\<close>

text \<open>The values of \<open>vals\<close> in the rows whose key is \<open>k\<close>.\<close>

definition rows_of :: "'k list \<Rightarrow> rat list \<Rightarrow> 'k \<Rightarrow> rat list" where
  "rows_of keys vals k = map snd (filter (\<lambda>p. fst p = k) (zip keys vals))"

text \<open>
  \<^verbatim>\<open>df.groupby("Reference")[col].sum()\<close>: one group per distinct string key, in ascending
  key order; rows whose key is missing belong to no group.
\<close>

definition groupby_sum :: "(rat list \<Rightarrow> rat) \<Rightarrow> obj list \<Rightarrow> rat list \<Rightarrow> (string \<times> rat) list" where
  "groupby_sum colsum keys vals =
     map (\<lambda>k. (k, colsum (rows_of keys vals (Str k))))
       (sort (remdups (concat (map (\<lambda>c. case c of Str s \<Rightarrow> [s] | _ \<Rightarrow> []) keys))))"

text \<open>
  \<^verbatim>\<open>s.nlargest(n)\<close> with \<^verbatim>\<open>keep='first'\<close>, on a series without missing values. For
  \<open>n \<le> 0\<close> the result is empty. When \<open>n\<close> is at least the number of entries the library
  returns \<^verbatim>\<open>s.sort_values(ascending=False).head(n)\<close>; that sort is of the default kind,
  which is not stable, so the order it gives to equal values is the library's choice: it is
  the parameter \<open>sort_values\<close>. Otherwise the library selects the \<open>n\<close> largest entries
  with a stable sort: descending order of value, entries of equal value in their order in
  \<open>s\<close>.
\<close>

type_synonym series = "(string \<times> rat) list"

definition nlargest :: "(series \<Rightarrow> series) \<Rightarrow> int \<Rightarrow> series \<Rightarrow> series" where
  "nlargest sort_values n s =
     (if n \<le> 0 then []
      else if length s \<le> nat n then take (nat n) (sort_values s)
      else take (nat n) (sort_key (\<lambda>p. - snd p) s))"

text \<open>
  Lines 107 to 110 and 113 to 116, for the amount column \<open>col\<close>. Grouping by a label that
  two columns carry raises ValueError.
\<close>

definition top_sums ::
  "(string \<Rightarrow> rat list \<Rightarrow> rat) \<Rightarrow> (series \<Rightarrow> series) \<Rightarrow> string \<Rightarrow> frame \<Rightarrow> int
     \<Rightarrow> error + series" where
  "top_sums colsum sort_values col df n =
     (if col \<in> set (map fst df) \<and> ''Reference'' \<in> set (map fst df) then
        (case getitem df ''Reference'' of
           [(_, Object refs)] \<Rightarrow>
             (case getitem df col of
                [(_, Float64 vals)] \<Rightarrow>
                  Inr (filter (\<lambda>p. snd p > 0)
                         (nlargest sort_values n (groupby_sum (colsum col) refs vals)))
              | _ \<Rightarrow> Inl NotModelled)
         | [_] \<Rightarrow> Inl NotModelled
         | _ \<Rightarrow> Inl ValueError)
      else Inr [])"

definition get_top_debits ::
  "(string \<Rightarrow> rat list \<Rightarrow> rat) \<Rightarrow> (series \<Rightarrow> series) \<Rightarrow> frame \<Rightarrow> int \<Rightarrow> error + series" where
  "get_top_debits colsum sort_values df n = top_sums colsum sort_values ''Debit'' df n"

definition get_top_credits ::
  "(string \<Rightarrow> rat list \<Rightarrow> rat) \<Rightarrow> (series \<Rightarrow> series) \<Rightarrow> frame \<Rightarrow> int \<Rightarrow> error + series" where
  "get_top_credits colsum sort_values df n = top_sums colsum sort_values ''Credit'' df n"

text \<open>
  The characters with a meaning in a regular expression.
\<close>

definition regex_meta :: "char \<Rightarrow> bool" where
  "regex_meta c = (c \<in> set ''.^$*+?{}[]|()'' \<or> c = CHR 0x5C)"

text \<open>
  Lines 142 to 145. \<^verbatim>\<open>.str\<close> needs one object column; a missing cell never matches
  (\<^verbatim>\<open>na=False\<close>).
\<close>

definition search_reference :: "frame \<Rightarrow> string \<Rightarrow> error + frame" where
  "search_reference df term =
     (if ''Reference'' \<in> set (map fst df) then
        (case getitem df ''Reference'' of
           [(_, Object refs)] \<Rightarrow>
             if list_ex regex_meta (str_lower term) then Inl RegexSemantics
             else Inr (select_rows
                         (map (\<lambda>c. case c of
                                      Str s \<Rightarrow> contains (str_lower term) (str_lower s)
                                    | _ \<Rightarrow> False) refs) df)
         | _ \<Rightarrow> Inl AttributeError)
      else Inr [])"

text \<open>
  Lines 147 to 152. An argument left out is \<open>None\<close> and takes the default of the signature:
  \<^verbatim>\<open>min_amt=0\<close>, \<^verbatim>\<open>max_amt=None\<close>, \<^verbatim>\<open>col="Debit"\<close>.
\<close>

definition filter_by_amount ::
  "frame \<Rightarrow> rat option \<Rightarrow> rat option \<Rightarrow> string option \<Rightarrow> error + frame" where
  "filter_by_amount df min_arg max_arg col_arg =
     (let min_amt = (case min_arg of None \<Rightarrow> 0 | Some m \<Rightarrow> m);
          col = (case col_arg of None \<Rightarrow> ''Debit'' | Some c \<Rightarrow> c)
      in if col \<in> set (map fst df) then
           (case getitem df col of
              [(_, Float64 vals)] \<Rightarrow>
                (case max_arg of
                   Some max_amt \<Rightarrow>
                     if max_amt > 0
                     then Inr (select_rows (map (\<lambda>v. v \<ge> min_amt \<and> v \<le> max_amt) vals) df)
                     else Inr (select_rows (map (\<lambda>v. v \<ge> min_amt) vals) df)
                 | None \<Rightarrow> Inr (select_rows (map (\<lambda>v. v \<ge> min_amt) vals) df))
            | _ \<Rightarrow> Inl NotModelled)
         else Inr [])"

text \<open>
  Days since 1970-01-01 of a calendar day (proleptic Gregorian calendar).
\<close>

definition days_from_civil :: "timestamp \<Rightarrow> int" where
  "days_from_civil t =
     (case t of (y, m, d) \<Rightarrow>
        let y' = (if m \<le> 2 then y - 1 else y);
            era = y' div 400;
            yoe = y' - era * 400;
            mp = (int m + 9) mod 12;
            doy = (153 * mp + 2) div 5 + int d - 1;
            doe = yoe * 365 + yoe div 4 - yoe div 100 + doy
        in era * 146097 + doe - 719468)"

text \<open>\<^verbatim>\<open>.dt.to_period("M")\<close>: the calendar month, as (year, month).\<close>

definition to_period_M :: "timestamp \<Rightarrow> int \<times> nat" where
  "to_period_M t = (case t of (y, m, d) \<Rightarrow> (y, m))"

text \<open>
  \<^verbatim>\<open>.dt.to_period("W")\<close>: the week from Monday to Sunday that holds the day, named by the day
  number of its Monday (1970-01-01 was a Thursday).
\<close>

definition to_period_W :: "timestamp \<Rightarrow> int" where
  "to_period_W t = (let n = days_from_civil t in n - (n + 3) mod 7)"

text \<open>
  \<^verbatim>\<open>df.groupby(period)[["Debit", "Credit"]].sum()\<close>: one row per period in ascending order,
  with the two sums; rows whose period is NaT belong to no group.
\<close>

definition bucket_sums ::
  "(string \<Rightarrow> rat list \<Rightarrow> rat) \<Rightarrow> ('p::linorder) option list \<Rightarrow> rat list \<Rightarrow> rat list
     \<Rightarrow> ('p \<times> rat \<times> rat) list" where
  "bucket_sums colsum keys debit credit =
     map (\<lambda>k. (k, colsum ''Debit'' (rows_of keys debit (Some k)),
                  colsum ''Credit'' (rows_of keys credit (Some k))))
       (sort (remdups (concat (map (\<lambda>c. case c of Some k \<Rightarrow> [k] | None \<Rightarrow> []) keys))))"

text \<open>
  Lines 129 to 133 and 136 to 140, for the period function \<open>period\<close>. \<^verbatim>\<open>.dt\<close> needs one
  datetime column; selecting \<^verbatim>\<open>[["Debit", "Credit"]]\<close> raises KeyError when one of the two
  labels is no column.
\<close>

definition period_summary ::
  "(string \<Rightarrow> rat list \<Rightarrow> rat) \<Rightarrow> (timestamp \<Rightarrow> 'p::linorder) \<Rightarrow> frame
     \<Rightarrow> error + ('p \<times> rat \<times> rat) list" where
  "period_summary colsum period df =
     (if ''Date'' \<in> set (map fst df) then
        (case getitem df ''Date'' of
           [(_, Datetime64 dates)] \<Rightarrow>
             if ''Debit'' \<notin> set (map fst df) \<or> ''Credit'' \<notin> set (map fst df) then Inl KeyError
             else (case (getitem df ''Debit'', getitem df ''Credit'') of
                     ([(_, Float64 debit)], [(_, Float64 credit)]) \<Rightarrow>
                       Inr (bucket_sums colsum (map (map_option period) dates) debit credit)
                   | _ \<Rightarrow> Inl NotModelled)
         | _ \<Rightarrow> Inl AttributeError)
      else Inr [])"

definition get_monthly_summary ::
  "(string \<Rightarrow> rat list \<Rightarrow> rat) \<Rightarrow> frame \<Rightarrow> error + ((int \<times> nat) \<times> rat \<times> rat) list" where
  "get_monthly_summary colsum df = period_summary colsum to_period_M df"

definition get_weekly_summary ::
  "(string \<Rightarrow> rat list \<Rightarrow> rat) \<Rightarrow> frame \<Rightarrow> error + (int \<times> rat \<times> rat) list" where
  "get_weekly_summary colsum df = period_summary colsum to_period_W df"

section \<open>Query dispatch\<close>

datatype branch = NoQuery | HighestDebit | HighestCredit | MostTransactions | TotalSpent
  | TotalDeposited | MonthlySummary | WeeklySummary | CountByReference | MostFrequentReference
  | LargestTransaction | FilterReferenceAmount | HowMuch | NotUnderstood

text \<open>Lines 214 to 337: the branch the chain of \<^verbatim>\<open>if\<close>/\<^verbatim>\<open>elif\<close> tests takes for the query.\<close>

definition route :: "string \<Rightarrow> branch" where
  "route q =
     (if q = [] then NoQuery
      else if contains ''highest_debit'' q then HighestDebit
      else if contains ''highest_credit'' q then HighestCredit
      else if contains ''most_transactions'' q then MostTransactions
      else if contains ''total_spent'' q then TotalSpent
      else if contains ''total_deposited'' q then TotalDeposited
      else if contains ''monthly_summary'' q then MonthlySummary
      else if contains ''weekly_summary'' q then WeeklySummary
      else if contains ''count_by_reference'' q then CountByReference
      else if contains ''most_frequent_reference'' q then MostFrequentReference
      else if contains ''largest_transaction'' q then LargestTransaction
      else if contains ''filter_reference_amount'' q then FilterReferenceAmount
      else if contains ''how much'' q \<or> contains ''spent on'' q \<or> contains ''spend on'' q
      then HowMuch
      else NotUnderstood)"

text \<open>
  What a branch reports. \<open>Spent total term rows\<close>: "You spent total on term", with the
  matching rows; \<open>NoTransactions term\<close>: "No transactions found containing term";
  \<open>UsageHint\<close>: "Specify what to search"; \<open>SummaryTable\<close>: the summary shown;
  \<open>NoDateData\<close>: "No date data available".
\<close>

datatype 'p reply = Spent rat string frame | NoTransactions string | UsageHint
  | SummaryTable "('p \<times> rat \<times> rat) list" | NoDateData

text \<open>
  \<^verbatim>\<open>filtered_df.get("Debit", pd.Series()).sum()\<close>: the library's sum of the column, and
  0, the sum of the empty series, without it.
\<close>

definition debit_total :: "(string \<Rightarrow> rat list \<Rightarrow> rat) \<Rightarrow> frame \<Rightarrow> error + rat" where
  "debit_total colsum d =
     (case getitem d ''Debit'' of
        [] \<Rightarrow> Inr 0
      | [(_, Float64 vals)] \<Rightarrow> Inr (colsum ''Debit'' vals)
      | _ \<Rightarrow> Inl NotModelled)"

text \<open>Lines 322 to 334: the body of the free-text branch.\<close>

definition how_much ::
  "(string \<Rightarrow> rat list \<Rightarrow> rat) \<Rightarrow> frame \<Rightarrow> string \<Rightarrow> error + unit reply" where
  "how_much colsum d q =
     (let parts = split_on q in
      if length parts > 1 then
        (let search_term = strip (last parts) in
         case search_reference d search_term of
           Inl e \<Rightarrow> Inl e
         | Inr filtered_df \<Rightarrow>
             if \<not> empty filtered_df then
               (case debit_total colsum filtered_df of
                  Inl e \<Rightarrow> Inl e
                | Inr total_category_spent \<Rightarrow>
                    Inr (Spent total_category_spent search_term filtered_df))
             else Inr (NoTransactions search_term))
      else Inr UsageHint)"

text \<open>Lines 263 to 270: the body of the monthly-summary branch.\<close>

definition monthly_summary_branch ::
  "(string \<Rightarrow> rat list \<Rightarrow> rat) \<Rightarrow> frame \<Rightarrow> error + (int \<times> nat) reply" where
  "monthly_summary_branch colsum d =
     (case get_monthly_summary colsum d of
        Inl e \<Rightarrow> Inl e
      | Inr summary \<Rightarrow> if summary \<noteq> [] then Inr (SummaryTable summary) else Inr NoDateData)"

text \<open>Lines 273 to 280: the body of the weekly-summary branch.\<close>

definition weekly_summary_branch ::
  "(string \<Rightarrow> rat list \<Rightarrow> rat) \<Rightarrow> frame \<Rightarrow> error + int reply" where
  "weekly_summary_branch colsum d =
     (case get_weekly_summary colsum d of
        Inl e \<Rightarrow> Inl e
      | Inr summary \<Rightarrow> if summary \<noteq> [] then Inr (SummaryTable summary) else Inr NoDateData)"

section \<open>Two readers for the library's parsers\<close>

text \<open>
  \<^verbatim>\<open>pd.to_numeric\<close> and \<^verbatim>\<open>pd.to_datetime\<close> are parameters of the model. The two readers
  below instantiate them where a concrete run is evaluated: plain decimal literals with an
  optional sign, and dates written MM/DD/YYYY.
\<close>

definition digit_of :: "char \<Rightarrow> nat option" where
  "digit_of c = map_of (zip ''0123456789'' [0, 1, 2, 3, 4, 5, 6, 7, 8, 9]) c"

fun nat_of_digits :: "string \<Rightarrow> nat \<Rightarrow> nat option" where
  "nat_of_digits [] acc = Some acc"
| "nat_of_digits (c # cs) acc =
     (case digit_of c of None \<Rightarrow> None | Some d \<Rightarrow> nat_of_digits cs (10 * acc + d))"

definition decimal :: "string \<Rightarrow> rat option" where
  "decimal s =
     (let neg = (s \<noteq> [] \<and> hd s = CHR ''-'');
          body = (if s \<noteq> [] \<and> (hd s = CHR ''-'' \<or> hd s = CHR ''+'') then tl s else s);
          ip = takeWhile (\<lambda>c. c \<noteq> CHR ''.'') body;
          fp = drop 1 (dropWhile (\<lambda>c. c \<noteq> CHR ''.'') body)
      in if ip = [] \<and> fp = [] then None
         else (case (nat_of_digits ip 0, nat_of_digits fp 0) of
                 (Some a, Some b) \<Rightarrow>
                   Some ((if neg then - 1 else 1) * (of_nat a + of_nat b / 10 ^ length fp))
               | _ \<Rightarrow> None))"

definition mdy :: "string \<Rightarrow> timestamp option" where
  "mdy s =
     (if length s = 10 \<and> s ! 2 = CHR ''/'' \<and> s ! 5 = CHR ''/'' then
        (case (nat_of_digits (take 2 s) 0, nat_of_digits (take 2 (drop 3 s)) 0,
               nat_of_digits (drop 6 s) 0) of
           (Some m, Some d, Some y) \<Rightarrow>
             if 1 \<le> m \<and> m \<le> 12 \<and> 1 \<le> d \<and> d \<le> 31 then Some (int y, m, d) else None
         | _ \<Rightarrow> None)
      else None)"

section \<open>Properties\<close>

subsection \<open>Substring test and split\<close>

lemma startswith_iff: "startswith s p \<longleftrightarrow> (\<exists>t. s = p @ t)"
  by (induction s p rule: startswith.induct) auto

lemma contains_iff: "contains sub s \<longleftrightarrow> (\<exists>pre post. s = pre @ sub @ post)"
proof (induction s)
  case Nil
  then show ?case by auto
next
  case (Cons c cs)
  show ?case
  proof
    assume "contains sub (c # cs)"
    then consider "startswith (c # cs) sub" | "contains sub cs" by auto
    then show "\<exists>pre post. c # cs = pre @ sub @ post"
    proof cases
      case 1
      then obtain t where "c # cs = sub @ t" by (auto simp: startswith_iff)
      then have "c # cs = [] @ sub @ t" by simp
      then show ?thesis by blast
    next
      case 2
      then obtain pre post where "cs = pre @ sub @ post" using Cons.IH by blast
      then have "c # cs = (c # pre) @ sub @ post" by simp
      then show ?thesis by blast
    qed
  next
    assume "\<exists>pre post. c # cs = pre @ sub @ post"
    then obtain pre post where e: "c # cs = pre @ sub @ post" by blast
    show "contains sub (c # cs)"
    proof (cases pre)
      case Nil
      with e have "c # cs = sub @ post" by simp
      then have "startswith (c # cs) sub" unfolding startswith_iff by blast
      then show ?thesis by simp
    next
      case (Cons a pre')
      with e have "cs = pre' @ sub @ post" by simp
      then have "contains sub cs" using Cons.IH by blast
      then show ?thesis by simp
    qed
  qed
qed

lemma split_on_on: "split_on (CHR ''o'' # CHR ''n'' # cs) = [] # split_on cs"
  by simp

lemma split_on_other:
  "\<not> (c = CHR ''o'' \<and> d = CHR ''n'') \<Longrightarrow>
   split_on (c # d # cs) = (case split_on (d # cs) of p # ps \<Rightarrow> (c # p) # ps | [] \<Rightarrow> [[c]])"
  by auto

lemma contains_on_on: "contains ''on'' (CHR ''o'' # CHR ''n'' # cs)"
  by simp

lemma contains_on_other:
  "\<not> (c = CHR ''o'' \<and> d = CHR ''n'') \<Longrightarrow> contains ''on'' (c # d # cs) = contains ''on'' (d # cs)"
  by auto

lemma split_on_not_Nil [simp]: "split_on s \<noteq> []"
  by (induction s rule: split_on.induct) (auto split: list.splits)

lemma split_on_single: "split_on s = [p] \<longleftrightarrow> p = s \<and> \<not> contains ''on'' s"
proof (induction s arbitrary: p rule: split_on.induct)
  case 1
  show ?case by auto
next
  case (2 c)
  show ?case by auto
next
  case (3 c d cs)
  show ?case
  proof (cases "c = CHR ''o'' \<and> d = CHR ''n''")
    case True
    then have "split_on (c # d # cs) = [] # split_on cs" "contains ''on'' (c # d # cs)"
      by simp_all
    then show ?thesis by simp
  next
    case False
    note s = split_on_other [OF False, of cs] and k = contains_on_other [OF False, of cs]
    obtain q qs where sp: "split_on (d # cs) = q # qs"
      by (cases "split_on (d # cs)") auto
    have ih: "split_on (d # cs) = [r] \<longleftrightarrow> r = d # cs \<and> \<not> contains ''on'' (d # cs)" for r
      using 3(2) False by blast
    show ?thesis
    proof (cases qs)
      case Nil
      with sp ih [of q] have "q = d # cs" "\<not> contains ''on'' (d # cs)" by auto
      with sp Nil show ?thesis unfolding s k by auto
    next
      case (Cons a list)
      with sp ih [of "d # cs"] have "contains ''on'' (d # cs)" by auto
      with sp Cons show ?thesis unfolding s k by auto
    qed
  qed
qed

lemma split_on_no_on: "\<not> contains ''on'' s \<Longrightarrow> split_on s = [s]"
  by (simp add: split_on_single)

lemma length_split_on: "1 < length (split_on s) \<longleftrightarrow> contains ''on'' s"
proof -
  have "length (split_on s) = 1 \<longleftrightarrow> \<not> contains ''on'' s"
    using split_on_single [of s] by (cases "split_on s") auto
  moreover have "length (split_on s) \<noteq> 0" by simp
  ultimately show ?thesis by linarith
qed

lemma last_split_on_no_on: "\<not> contains ''on'' (last (split_on s))"
proof (induction s rule: split_on.induct)
  case 1
  then show ?case by simp
next
  case (2 c)
  then show ?case by simp
next
  case (3 c d cs)
  show ?case
  proof (cases "c = CHR ''o'' \<and> d = CHR ''n''")
    case True
    then have "last (split_on (c # d # cs)) = last (split_on cs)" by simp
    then show ?thesis using 3(1) True by simp
  next
    case False
    note s = split_on_other [OF False, of cs] and k = contains_on_other [OF False, of cs]
    obtain p ps where sp: "split_on (d # cs) = p # ps"
      by (cases "split_on (d # cs)") auto
    have ih: "\<not> contains ''on'' (last (split_on (d # cs)))" using 3(2) False by blast
    show ?thesis
    proof (cases ps)
      case Nil
      with sp have "p = d # cs" "\<not> contains ''on'' (d # cs)"
        using split_on_single [of "d # cs" p] by auto
      moreover have "last (split_on (c # d # cs)) = c # p" unfolding s sp Nil by simp
      ultimately show ?thesis using k by simp
    next
      case (Cons a list)
      have "last (split_on (c # d # cs)) = last (split_on (d # cs))"
        unfolding s sp Cons by simp
      then show ?thesis using ih by simp
    qed
  qed
qed

lemma split_on_decompose:
  "contains ''on'' s \<Longrightarrow> \<exists>pre. s = pre @ ''on'' @ last (split_on s)"
proof (induction s rule: split_on.induct)
  case 1
  then show ?case by simp
next
  case (2 c)
  then show ?case by simp
next
  case (3 c d cs)
  show ?case
  proof (cases "c = CHR ''o'' \<and> d = CHR ''n''")
    case True
    then have l: "last (split_on (c # d # cs)) = last (split_on cs)" by simp
    show ?thesis
    proof (cases "contains ''on'' cs")
      case c: True
      then obtain pre where "cs = pre @ ''on'' @ last (split_on cs)"
        using 3(1) True by blast
      then have "c # d # cs = (c # d # pre) @ ''on'' @ last (split_on cs)" by simp
      then show ?thesis unfolding l by blast
    next
      case c: False
      then have "split_on cs = [cs]" by (rule split_on_no_on)
      with True have "c # d # cs = [] @ ''on'' @ last (split_on cs)" by simp
      then show ?thesis unfolding l by blast
    qed
  next
    case False
    note s = split_on_other [OF False, of cs] and k = contains_on_other [OF False, of cs]
    from "3.prems" have c: "contains ''on'' (d # cs)" unfolding k .
    then obtain pre where e: "d # cs = pre @ ''on'' @ last (split_on (d # cs))"
      using 3(2) False by blast
    obtain p ps where sp: "split_on (d # cs) = p # ps"
      by (cases "split_on (d # cs)") auto
    have "ps \<noteq> []" using c sp split_on_single [of "d # cs" p] by auto
    then have "last (split_on (c # d # cs)) = last (split_on (d # cs))"
      unfolding s sp by simp
    with e have "c # d # cs = (c # pre) @ ''on'' @ last (split_on (c # d # cs))" by simp
    then show ?thesis by blast
  qed
qed

subsection \<open>The deduplication pass\<close>


lemma length_dedup_step [simp]: "length (dedup_step i cols) = length cols"
  by (simp add: dedup_step_def)

lemma length_fold_dedup_step [simp]: "length (fold dedup_step is cols) = length cols"
  by (induction "is" arbitrary: cols) auto










subsection \<open>Role inference and normalization\<close>

lemma find_first:
  "find P xs = Some c \<longleftrightarrow> (\<exists>i<length xs. xs ! i = c \<and> P c \<and> (\<forall>j<i. \<not> P (xs ! j)))"
  by (auto simp: find_Some_iff)

lemma set_getitem [simp]: "set (getitem df n) = {p \<in> set df. fst p = n}"
  by (auto simp: getitem_def)

lemma set_getitem_list: "set (getitem_list df keep) = {p \<in> set df. fst p \<in> set keep}"
  by (auto simp: getitem_list_def)

lemma set_truthy: "set (truthy cs) = {c. Some c \<in> set cs \<and> c \<noteq> []}"
  by (induction cs) (auto split: option.splits)

lemma truthy_Nil: "truthy cs = [] \<longleftrightarrow> (\<forall>c. Some c \<in> set cs \<longrightarrow> c = [])"
  using set_truthy [of cs] by (metis (mono_tags, lifting) empty_Collect_eq set_empty)

lemma keep_cols_None:
  "date_col cs = None \<Longrightarrow> debit_col cs = None \<Longrightarrow> credit_col cs = None \<Longrightarrow> ref_col cs = None
   \<Longrightarrow> keep_cols cs = []"
  by (simp add: keep_cols_def)

lemma put_lookup:
  "put col name m n = (if col = Some n \<and> n \<noteq> [] then Some name else m n)"
  by (auto simp: put_def split: option.splits)

lemma rename_map_lookup:
  "rename_map cs n =
     (if ref_col cs = Some n \<and> n \<noteq> [] then Some ''Reference''
      else if credit_col cs = Some n \<and> n \<noteq> [] then Some ''Credit''
      else if debit_col cs = Some n \<and> n \<noteq> [] then Some ''Debit''
      else if date_col cs = Some n \<and> n \<noteq> [] then Some ''Date''
      else None)"
  by (simp add: rename_map_def put_lookup)

lemma rename_map_keep:
  assumes "n \<in> set (keep_cols cs)"
  shows "\<exists>n'. rename_map cs n = Some n' \<and> n' \<in> {''Date'', ''Debit'', ''Credit'', ''Reference''}"
proof -
  have "Some n \<in> set [date_col cs, debit_col cs, credit_col cs, ref_col cs]" "n \<noteq> []"
    using assms unfolding keep_cols_def set_truthy by auto
  then show ?thesis by (auto simp: rename_map_lookup)
qed

lemma rename_map_Date: "rename_map cs n = Some ''Date'' \<Longrightarrow> date_col cs = Some n"
  by (simp add: rename_map_lookup split: if_splits)

lemma rename_map_Debit: "rename_map cs n = Some ''Debit'' \<Longrightarrow> debit_col cs = Some n"
  by (simp add: rename_map_lookup split: if_splits)

lemma rename_map_Credit: "rename_map cs n = Some ''Credit'' \<Longrightarrow> credit_col cs = Some n"
  by (simp add: rename_map_lookup split: if_splits)

lemma rename_map_Reference: "rename_map cs n = Some ''Reference'' \<Longrightarrow> ref_col cs = Some n"
  by (simp add: rename_map_lookup split: if_splits)

lemma coerce_types_Inr:
  "coerce_types num dt f = Inr out \<Longrightarrow>
   out = map (\<lambda>(n, xs). (n, coerce_column num dt n xs)) f \<and>
   length (getitem f ''Debit'') \<le> 1 \<and> length (getitem f ''Credit'') \<le> 1 \<and>
   length (getitem f ''Date'') \<le> 1"
  by (auto simp: coerce_types_def split: if_splits)

lemma normalize_Inr:
  assumes "normalize num dt df = Inr out" "out \<noteq> []"
  shows "coerce_types num dt
           (rename (rename_map (map fst df)) (getitem_list df (keep_cols (map fst df)))) = Inr out"
  using assms by (auto simp: normalize_def Let_def split: if_splits)

lemma normalize_column:
  assumes "normalize num dt df = Inr out" "(n', col) \<in> set out"
  shows "\<exists>n xs. (n, xs) \<in> set df \<and> rename_map (map fst df) n = Some n' \<and>
                 n' \<in> {''Date'', ''Debit'', ''Credit'', ''Reference''} \<and>
                 col = coerce_column num dt n' xs"
proof -
  let ?cs = "map fst df"
  let ?f = "rename (rename_map ?cs) (getitem_list df (keep_cols ?cs))"
  from assms have ne: "out \<noteq> []" by auto
  from assms(1) ne have "coerce_types num dt ?f = Inr out" by (rule normalize_Inr)
  then have out: "out = map (\<lambda>(n, xs). (n, coerce_column num dt n xs)) ?f"
    by (simp add: coerce_types_Inr)
  with assms(2) obtain xs where m: "(n', xs) \<in> set ?f" "col = coerce_column num dt n' xs"
    by auto
  from m(1) obtain n where n: "(n, xs) \<in> set (getitem_list df (keep_cols ?cs))"
    "n' = (case rename_map ?cs n of Some k \<Rightarrow> k | None \<Rightarrow> n)"
    by (auto simp: rename_def)
  from n(1) have k: "(n, xs) \<in> set df" "n \<in> set (keep_cols ?cs)"
    by (auto simp: set_getitem_list)
  from rename_map_keep [OF k(2)] n(2) have "rename_map ?cs n = Some n'"
    "n' \<in> {''Date'', ''Debit'', ''Credit'', ''Reference''}" by auto
  with k(1) m(2) show ?thesis by blast
qed

lemma getitem_map_coerce:
  "getitem (map (\<lambda>(n, xs). (n, g n xs)) f) k = map (\<lambda>(n, xs). (n, g n xs)) (getitem f k)"
  by (induction f) (auto simp: getitem_def)

lemma singleton_of_mem: "x \<in> set xs \<Longrightarrow> length xs \<le> 1 \<Longrightarrow> xs = [x]"
  by (cases xs) auto

lemma normalize_single:
  assumes "normalize num dt df = Inr out" "(n', col) \<in> set out"
    and "n' \<in> {''Date'', ''Debit'', ''Credit''}"
  shows "getitem out n' = [(n', col)]"
proof -
  let ?cs = "map fst df"
  let ?f = "rename (rename_map ?cs) (getitem_list df (keep_cols ?cs))"
  from assms have ne: "out \<noteq> []" by auto
  from assms(1) ne have c: "coerce_types num dt ?f = Inr out" by (rule normalize_Inr)
  note r = coerce_types_Inr [OF c]
  from r have "getitem out n' = map (\<lambda>(n, xs). (n, coerce_column num dt n xs)) (getitem ?f n')"
    by (simp add: getitem_map_coerce)
  then have "length (getitem out n') = length (getitem ?f n')" by simp
  with r assms(3) have l: "length (getitem out n') \<le> 1" by auto
  from assms(2) have m: "(n', col) \<in> set (getitem out n')" by simp
  from m l show ?thesis by (rule singleton_of_mem)
qed

lemma normalize_typed:
  assumes "normalize num dt df = Inr out" "(n', col) \<in> set out"
  shows "n' \<in> {''Date'', ''Debit'', ''Credit'', ''Reference''}"
    and "n' = ''Debit'' \<or> n' = ''Credit'' \<Longrightarrow> \<exists>vals. col = Float64 vals"
    and "n' = ''Date'' \<Longrightarrow> \<exists>ts. col = Datetime64 ts"
    and "n' = ''Reference'' \<Longrightarrow> \<exists>xs. col = Object xs"
proof -
  from normalize_column [OF assms] obtain xs where
    c: "col = coerce_column num dt n' xs" and n: "n' \<in> {''Date'', ''Debit'', ''Credit'', ''Reference''}"
    by blast
  show "n' \<in> {''Date'', ''Debit'', ''Credit'', ''Reference''}" by (rule n)
  show "n' = ''Debit'' \<or> n' = ''Credit'' \<Longrightarrow> \<exists>vals. col = Float64 vals"
    using c by (auto simp: coerce_column_def)
  show "n' = ''Date'' \<Longrightarrow> \<exists>ts. col = Datetime64 ts"
    using c by (simp add: coerce_column_def)
  show "n' = ''Reference'' \<Longrightarrow> \<exists>xs. col = Object xs"
    using c by (simp add: coerce_column_def)
qed

subsection \<open>Row selection\<close>

lemma getitem_single:
  assumes "getitem df k = [(c, x)]"
  shows "c = k" and "(k, x) \<in> set df" and "k \<in> set (map fst df)"
proof -
  have "(c, x) \<in> set (getitem df k)" unfolding assms by simp
  then have m: "(c, x) \<in> set df" "c = k" by auto
  show "c = k" by (rule m)
  from m show "(k, x) \<in> set df" by blast
  then show "k \<in> set (map fst df)" by force
qed

lemma sel_map_filter: "sel (map P xs) xs = filter P xs"
  by (induction xs) (auto simp: sel_def)

lemma getitem_select_rows: "getitem (select_rows bs df) k = select_rows bs (getitem df k)"
  by (induction df) (auto simp: getitem_def select_rows_def)

subsection \<open>The columns of a normalized store\<close>

lemma normalize_role:
  assumes "normalize num dt df = Inr out" "(n, col) \<in> set out"
  shows "\<exists>c xs. (c, xs) \<in> set df \<and> col = coerce_column num dt n xs \<and>
           (n = ''Date'' \<and> date_col (map fst df) = Some c \<or>
            n = ''Debit'' \<and> debit_col (map fst df) = Some c \<or>
            n = ''Credit'' \<and> credit_col (map fst df) = Some c \<or>
            n = ''Reference'' \<and> ref_col (map fst df) = Some c)"
proof -
  from normalize_column [OF assms] obtain c xs where
    m: "(c, xs) \<in> set df" and r: "rename_map (map fst df) c = Some n"
    and k: "n \<in> {''Date'', ''Debit'', ''Credit'', ''Reference''}"
    and e: "col = coerce_column num dt n xs" by blast
  from k r have "n = ''Date'' \<and> date_col (map fst df) = Some c \<or>
            n = ''Debit'' \<and> debit_col (map fst df) = Some c \<or>
            n = ''Credit'' \<and> credit_col (map fst df) = Some c \<or>
            n = ''Reference'' \<and> ref_col (map fst df) = Some c"
    using rename_map_Date rename_map_Debit rename_map_Credit rename_map_Reference by blast
  with m e show ?thesis by blast
qed

lemma normalize_absent:
  assumes "normalize num dt df = Inr out"
  shows "date_col (map fst df) = None \<Longrightarrow> ''Date'' \<notin> fst ` set out"
    and "debit_col (map fst df) = None \<Longrightarrow> ''Debit'' \<notin> fst ` set out"
    and "credit_col (map fst df) = None \<Longrightarrow> ''Credit'' \<notin> fst ` set out"
    and "ref_col (map fst df) = None \<Longrightarrow> ''Reference'' \<notin> fst ` set out"
proof -
  have r: "\<exists>c. (n = ''Date'' \<and> date_col (map fst df) = Some c \<or>
            n = ''Debit'' \<and> debit_col (map fst df) = Some c \<or>
            n = ''Credit'' \<and> credit_col (map fst df) = Some c \<or>
            n = ''Reference'' \<and> ref_col (map fst df) = Some c)" if "n \<in> fst ` set out" for n
  proof -
    from that obtain col where "(n, col) \<in> set out" by force
    from normalize_role [OF assms this] show ?thesis by blast
  qed
  show "date_col (map fst df) = None \<Longrightarrow> ''Date'' \<notin> fst ` set out"
    using r [of "''Date''"] by auto
  show "debit_col (map fst df) = None \<Longrightarrow> ''Debit'' \<notin> fst ` set out"
    using r [of "''Debit''"] by auto
  show "credit_col (map fst df) = None \<Longrightarrow> ''Credit'' \<notin> fst ` set out"
    using r [of "''Credit''"] by auto
  show "ref_col (map fst df) = None \<Longrightarrow> ''Reference'' \<notin> fst ` set out"
    using r [of "''Reference''"] by auto
qed

lemma normalize_no_role:
  "date_col (map fst df) = None \<Longrightarrow> debit_col (map fst df) = None \<Longrightarrow>
   credit_col (map fst df) = None \<Longrightarrow> ref_col (map fst df) = None \<Longrightarrow>
   normalize num dt df = Inr []"
  by (simp add: normalize_def keep_cols_None)

section \<open>Role inference\<close>

text \<open>
  Claim C1. Each role is bound to the first label of the table, in table order, that holds
  one of its triggers once lower-cased: \<^verbatim>\<open>date\<close> for Date; \<^verbatim>\<open>debit\<close> or
  \<^verbatim>\<open>withdraw\<close> for Debit; \<^verbatim>\<open>credit\<close> or \<^verbatim>\<open>deposit\<close> for Credit; \<^verbatim>\<open>ref\<close> or
  \<^verbatim>\<open>particular\<close> for Reference. When normalization returns a store, every column of the
  store carries one of the four canonical names and holds the coerced cells of a column of
  the table whose label that role is bound to; a role that is bound to no label names no
  column of the store; and when no role is bound, the store is empty.
\<close>

theorem role_inference:
  "(date_col cs = Some c \<longleftrightarrow>
      (\<exists>i<length cs. cs ! i = c \<and> contains ''date'' (str_lower c) \<and>
         (\<forall>j<i. \<not> contains ''date'' (str_lower (cs ! j))))) \<and>
   (debit_col cs = Some c \<longleftrightarrow>
      (\<exists>i<length cs. cs ! i = c \<and>
         (contains ''debit'' (str_lower c) \<or> contains ''withdraw'' (str_lower c)) \<and>
         (\<forall>j<i. \<not> (contains ''debit'' (str_lower (cs ! j)) \<or>
                    contains ''withdraw'' (str_lower (cs ! j)))))) \<and>
   (credit_col cs = Some c \<longleftrightarrow>
      (\<exists>i<length cs. cs ! i = c \<and>
         (contains ''credit'' (str_lower c) \<or> contains ''deposit'' (str_lower c)) \<and>
         (\<forall>j<i. \<not> (contains ''credit'' (str_lower (cs ! j)) \<or>
                    contains ''deposit'' (str_lower (cs ! j)))))) \<and>
   (ref_col cs = Some c \<longleftrightarrow>
      (\<exists>i<length cs. cs ! i = c \<and>
         (contains ''ref'' (str_lower c) \<or> contains ''particular'' (str_lower c)) \<and>
         (\<forall>j<i. \<not> (contains ''ref'' (str_lower (cs ! j)) \<or>
                    contains ''particular'' (str_lower (cs ! j)))))) \<and>
   (normalize num dt df = Inr out \<longrightarrow>
      (\<forall>n col. (n, col) \<in> set out \<longrightarrow>
         (\<exists>k xs. (k, xs) \<in> set df \<and> col = coerce_column num dt n xs \<and>
            (n = ''Date'' \<and> date_col (map fst df) = Some k \<or>
             n = ''Debit'' \<and> debit_col (map fst df) = Some k \<or>
             n = ''Credit'' \<and> credit_col (map fst df) = Some k \<or>
             n = ''Reference'' \<and> ref_col (map fst df) = Some k))) \<and>
      (date_col (map fst df) = None \<longrightarrow> ''Date'' \<notin> fst ` set out) \<and>
      (debit_col (map fst df) = None \<longrightarrow> ''Debit'' \<notin> fst ` set out) \<and>
      (credit_col (map fst df) = None \<longrightarrow> ''Credit'' \<notin> fst ` set out) \<and>
      (ref_col (map fst df) = None \<longrightarrow> ''Reference'' \<notin> fst ` set out)) \<and>
   (date_col (map fst df) = None \<and> debit_col (map fst df) = None \<and>
    credit_col (map fst df) = None \<and> ref_col (map fst df) = None \<longrightarrow>
      normalize num dt df = Inr [])"
proof -
  note a = find_first [of "\<lambda>c. contains ''date'' (str_lower c)" cs c, folded date_col_def]
  note b = find_first
    [of "\<lambda>c. contains ''debit'' (str_lower c) \<or> contains ''withdraw'' (str_lower c)" cs c,
     folded debit_col_def]
  note c = find_first
    [of "\<lambda>c. contains ''credit'' (str_lower c) \<or> contains ''deposit'' (str_lower c)" cs c,
     folded credit_col_def]
  note d = find_first
    [of "\<lambda>c. contains ''ref'' (str_lower c) \<or> contains ''particular'' (str_lower c)" cs c,
     folded ref_col_def]
  have e: "normalize num dt df = Inr out \<longrightarrow>
      (\<forall>n col. (n, col) \<in> set out \<longrightarrow>
         (\<exists>k xs. (k, xs) \<in> set df \<and> col = coerce_column num dt n xs \<and>
            (n = ''Date'' \<and> date_col (map fst df) = Some k \<or>
             n = ''Debit'' \<and> debit_col (map fst df) = Some k \<or>
             n = ''Credit'' \<and> credit_col (map fst df) = Some k \<or>
             n = ''Reference'' \<and> ref_col (map fst df) = Some k))) \<and>
      (date_col (map fst df) = None \<longrightarrow> ''Date'' \<notin> fst ` set out) \<and>
      (debit_col (map fst df) = None \<longrightarrow> ''Debit'' \<notin> fst ` set out) \<and>
      (credit_col (map fst df) = None \<longrightarrow> ''Credit'' \<notin> fst ` set out) \<and>
      (ref_col (map fst df) = None \<longrightarrow> ''Reference'' \<notin> fst ` set out)"
  proof
    assume n: "normalize num dt df = Inr out"
    have "\<forall>n col. (n, col) \<in> set out \<longrightarrow>
         (\<exists>k xs. (k, xs) \<in> set df \<and> col = coerce_column num dt n xs \<and>
            (n = ''Date'' \<and> date_col (map fst df) = Some k \<or>
             n = ''Debit'' \<and> debit_col (map fst df) = Some k \<or>
             n = ''Credit'' \<and> credit_col (map fst df) = Some k \<or>
             n = ''Reference'' \<and> ref_col (map fst df) = Some k))"
      using normalize_role [OF n] by blast
    then show "(\<forall>n col. (n, col) \<in> set out \<longrightarrow>
         (\<exists>k xs. (k, xs) \<in> set df \<and> col = coerce_column num dt n xs \<and>
            (n = ''Date'' \<and> date_col (map fst df) = Some k \<or>
             n = ''Debit'' \<and> debit_col (map fst df) = Some k \<or>
             n = ''Credit'' \<and> credit_col (map fst df) = Some k \<or>
             n = ''Reference'' \<and> ref_col (map fst df) = Some k))) \<and>
      (date_col (map fst df) = None \<longrightarrow> ''Date'' \<notin> fst ` set out) \<and>
      (debit_col (map fst df) = None \<longrightarrow> ''Debit'' \<notin> fst ` set out) \<and>
      (credit_col (map fst df) = None \<longrightarrow> ''Credit'' \<notin> fst ` set out) \<and>
      (ref_col (map fst df) = None \<longrightarrow> ''Reference'' \<notin> fst ` set out)"
      using normalize_absent [OF n] by blast
  qed
  have f: "date_col (map fst df) = None \<and> debit_col (map fst df) = None \<and>
    credit_col (map fst df) = None \<and> ref_col (map fst df) = None \<longrightarrow>
      normalize num dt df = Inr []"
    using normalize_no_role by blast
  show ?thesis by (rule conjI [OF a conjI [OF b conjI [OF c conjI [OF d conjI [OF e f]]]]])
qed

text \<open>
  A table with a date, a debit and a particulars column: no label holds a Credit trigger and
  the store has no Credit column. Of two labels that hold \<^verbatim>\<open>date\<close> the first is bound.
  A table with the one label Balance gives the empty store.
\<close>

theorem role_inference_witness:
  "normalize decimal mdy
     [(''Txn Date'', [Str ''01/01/2024'']), (''Debit Amt'', [Str ''1,200.50'']),
      (''Particulars'', [Str ''Coffee Shop''])]
     = Inr [(''Date'', Datetime64 [Some (2024, 1, 1)]), (''Debit'', Float64 [1200.5]),
            (''Reference'', Object [Str ''Coffee Shop''])] \<and>
   credit_col (map fst [(''Txn Date'', [Str ''01/01/2024'']), (''Debit Amt'', [Str ''1,200.50'']),
      (''Particulars'', [Str ''Coffee Shop''])]) = None \<and>
   ''Credit'' \<notin> fst ` set [(''Date'', Datetime64 [Some (2024, 1, 1)]), (''Debit'', Float64 [1200.5]),
            (''Reference'', Object [Str ''Coffee Shop''])] \<and>
   date_col [''Posting date'', ''Txn Date''] = Some ''Posting date'' \<and>
   normalize decimal mdy [(''Balance'', [Str ''5''])] = Inr []"
proof -
  let ?df = "[(''Txn Date'', [Str ''01/01/2024'']), (''Debit Amt'', [Str ''1,200.50'']),
      (''Particulars'', [Str ''Coffee Shop''])]"
  let ?out = "[(''Date'', Datetime64 [Some (2024, 1, 1)]), (''Debit'', Float64 [1200.5]),
            (''Reference'', Object [Str ''Coffee Shop''])]"
  note t = role_inference [where num = decimal and dt = mdy and df = ?df and out = ?out
      and cs = "[''Posting date'', ''Txn Date'']" and c = "''Posting date''"]
  note u = role_inference [where num = decimal and dt = mdy and df = "[(''Balance'', [Str ''5''])]"
      and out = "[]" and cs = "[]" and c = "[]"]
  have n: "normalize decimal mdy ?df = Inr ?out" by code_simp
  have k: "credit_col (map fst ?df) = None" by code_simp
  have h: "\<exists>i<length [''Posting date'', ''Txn Date'']. [''Posting date'', ''Txn Date''] ! i = ''Posting date'' \<and>
      contains ''date'' (str_lower ''Posting date'') \<and>
      (\<forall>j<i. \<not> contains ''date'' (str_lower ([''Posting date'', ''Txn Date''] ! j)))"
  proof (intro exI [of _ 0] conjI)
    show "contains ''date'' (str_lower ''Posting date'')" by code_simp
  qed simp_all
  have z: "date_col (map fst [(''Balance'', [Str ''5''])]) = None \<and>
      debit_col (map fst [(''Balance'', [Str ''5''])]) = None \<and>
      credit_col (map fst [(''Balance'', [Str ''5''])]) = None \<and>
      ref_col (map fst [(''Balance'', [Str ''5''])]) = None" by code_simp
  note t5 = t [THEN conjunct2, THEN conjunct2, THEN conjunct2, THEN conjunct2, THEN conjunct1,
      THEN mp, OF n]
  have x: "''Credit'' \<notin> fst ` set ?out"
    using t5 [THEN conjunct2, THEN conjunct2, THEN conjunct2, THEN conjunct1, THEN mp, OF k] .
  have y: "date_col [''Posting date'', ''Txn Date''] = Some ''Posting date''"
    using t [THEN conjunct1, THEN iffD2, OF h] .
  have w: "normalize decimal mdy [(''Balance'', [Str ''5''])] = Inr []"
    using u [THEN conjunct2, THEN conjunct2, THEN conjunct2, THEN conjunct2, THEN conjunct2,
      THEN mp, OF z] .
  show ?thesis by (rule conjI [OF n conjI [OF k conjI [OF x conjI [OF y w]]]])
qed

section \<open>Coercion of the amounts\<close>

text \<open>
  Claim C3. In a store returned by normalization, a column named Debit or Credit is the only
  column of that name and is numeric; its values are the amounts of the cells of a table
  column whose label the role is bound to, row by row. The amount of a cell is the number its
  text parses to once commas are removed and surrounding whitespace is stripped, and 0 when
  that text does not parse or the cell is missing.
\<close>

theorem debit_credit_coercion:
  assumes "normalize num dt df = Inr out" and "(n, col) \<in> set out"
    and "n = ''Debit'' \<or> n = ''Credit''"
  shows "\<exists>c xs. (c, xs) \<in> set df \<and>
           (if n = ''Debit'' then debit_col (map fst df) else credit_col (map fst df)) = Some c \<and>
           col = Float64 (map (amount num) xs) \<and>
           getitem out n = [(n, col)] \<and>
           (\<forall>x\<in>set xs. amount num x =
              (case x of
                 Str s \<Rightarrow> (case num (strip (remove_commas s)) of Some v \<Rightarrow> v | None \<Rightarrow> 0)
               | _ \<Rightarrow> 0))"
proof -
  from normalize_role [OF assms(1,2)] assms(3) obtain c xs where
    m: "(c, xs) \<in> set df" and e: "col = coerce_column num dt n xs"
    and r: "(if n = ''Debit'' then debit_col (map fst df) else credit_col (map fst df)) = Some c"
    by auto
  from e assms(3) have v: "col = Float64 (map (amount num) xs)"
    by (auto simp: coerce_column_def)
  from assms(3) have "n \<in> {''Date'', ''Debit'', ''Credit''}" by auto
  with assms(1,2) have g: "getitem out n = [(n, col)]" by (rule normalize_single)
  have a: "\<forall>x\<in>set xs. amount num x =
              (case x of
                 Str s \<Rightarrow> (case num (strip (remove_commas s)) of Some v \<Rightarrow> v | None \<Rightarrow> 0)
               | _ \<Rightarrow> 0)"
  proof
    fix x show "amount num x =
              (case x of
                 Str s \<Rightarrow> (case num (strip (remove_commas s)) of Some v \<Rightarrow> v | None \<Rightarrow> 0)
               | _ \<Rightarrow> 0)" by (cases x) simp_all
  qed
  from m r v g a show ?thesis by blast
qed

text \<open>
  The scenario of the specification: the header Txn Date, Debit Amt, Credit Amt, Particulars
  with the row \<^verbatim>\<open>01/01/2024\<close>, \<^verbatim>\<open>1,200.50\<close>, \<^verbatim>\<open>0\<close>, Coffee Shop gives the store with
  the date 2024-01-01, Debit 1200.50, Credit 0 and Reference Coffee Shop.
\<close>

theorem debit_credit_coercion_witness:
  "process_pdf_data decimal mdy
     (Pdf [Some ([''Txn Date'', ''Debit Amt'', ''Credit Amt'', ''Particulars''],
                 [[Some ''01/01/2024'', Some ''1,200.50'', Some ''0'', Some ''Coffee Shop'']])])
     = Inr (Some [(''Date'', Datetime64 [Some (2024, 1, 1)]), (''Debit'', Float64 [1200.5]),
                  (''Credit'', Float64 [0]), (''Reference'', Object [Str ''Coffee Shop''])]) \<and>
   normalize decimal mdy
     [(''Txn Date'', [Str ''01/01/2024'']), (''Debit Amt'', [Str ''1,200.50'']),
      (''Credit Amt'', [Str ''0'']), (''Particulars'', [Str ''Coffee Shop''])]
     = Inr [(''Date'', Datetime64 [Some (2024, 1, 1)]), (''Debit'', Float64 [1200.5]),
            (''Credit'', Float64 [0]), (''Reference'', Object [Str ''Coffee Shop''])] \<and>
   getitem [(''Date'', Datetime64 [Some (2024, 1, 1)]), (''Debit'', Float64 [1200.5]),
            (''Credit'', Float64 [0]), (''Reference'', Object [Str ''Coffee Shop''])] ''Debit''
     = [(''Debit'', Float64 [1200.5])] \<and>
   amount decimal (Str '' 1,200.50 '') = 1200.5 \<and>
   amount decimal (Str ''n/a'') = 0 \<and>
   amount decimal (Str '''') = 0"
proof -
  let ?df = "[(''Txn Date'', [Str ''01/01/2024'']), (''Debit Amt'', [Str ''1,200.50'']),
      (''Credit Amt'', [Str ''0'']), (''Particulars'', [Str ''Coffee Shop''])]"
  let ?out = "[(''Date'', Datetime64 [Some (2024, 1, 1)]), (''Debit'', Float64 [1200.5]),
            (''Credit'', Float64 [0]), (''Reference'', Object [Str ''Coffee Shop''])]"
  have p: "process_pdf_data decimal mdy
     (Pdf [Some ([''Txn Date'', ''Debit Amt'', ''Credit Amt'', ''Particulars''],
                 [[Some ''01/01/2024'', Some ''1,200.50'', Some ''0'', Some ''Coffee Shop'']])])
     = Inr (Some ?out)" by code_simp
  have n: "normalize decimal mdy ?df = Inr ?out" by code_simp
  have m: "(''Debit'', Float64 [1200.5]) \<in> set ?out" by simp
  have o: "''Debit'' = ''Debit'' \<or> ''Debit'' = ''Credit''" by simp
  from debit_credit_coercion [OF n m o]
  have g: "getitem ?out ''Debit'' = [(''Debit'', Float64 [1200.5])]" by blast
  have a: "amount decimal (Str '' 1,200.50 '') = 1200.5" by code_simp
  have b: "amount decimal (Str ''n/a'') = 0" by code_simp
  have c: "amount decimal (Str '''') = 0" by code_simp
  show ?thesis by (rule conjI [OF p conjI [OF n conjI [OF g conjI [OF a conjI [OF b c]]]]])
qed

section \<open>The deduplication of column labels\<close>




section \<open>Exceptions that leave the normalization\<close>

text \<open>
  Claim C2 says that normalization never raises on a table of strings. The table with the one
  header cell \<^verbatim>\<open>Debit/Credit\<close> and the one row \<^verbatim>\<open>5\<close> is such a table. Its column is bound
  to the Debit role and to the Credit role, so it is selected twice and both copies are
  renamed Credit; \<^verbatim>\<open>df["Credit"]\<close> is then a table, which has no \<^verbatim>\<open>.str\<close>, and the
  AttributeError is raised after the \<^verbatim>\<open>try\<close> block, so nothing catches it. This holds for
  every number and date parser.
\<close>

theorem normalize_raises:
  "process_pdf_data num dt (Pdf [Some ([''Debit/Credit''], [[Some ''5'']])]) = Inl AttributeError"
  by code_simp

section \<open>The period summaries on a store without an amount column\<close>

text \<open>
  Claim C6 says that every aggregation function and every dispatcher branch returns an empty
  or zero result on a store that lacks a required column. A statement with the columns Date
  and Deposit gives a store with Date and Credit and no Debit. The monthly and the weekly
  summary test only for Date and then select both Debit and Credit, which raises KeyError
  before anything is summed; the two dispatcher branches call them unguarded.
\<close>

theorem period_summary_raises:
  "process_pdf_data decimal mdy (Pdf [Some ([''Date'', ''Deposit''], [[Some ''01/01/2024'', Some ''5'']])])
     = Inr (Some [(''Date'', Datetime64 [Some (2024, 1, 1)]), (''Credit'', Float64 [5])]) \<and>
   get_monthly_summary colsum [(''Date'', Datetime64 [Some (2024, 1, 1)]), (''Credit'', Float64 [5])]
     = Inl KeyError \<and>
   get_weekly_summary colsum [(''Date'', Datetime64 [Some (2024, 1, 1)]), (''Credit'', Float64 [5])]
     = Inl KeyError \<and>
   monthly_summary_branch colsum [(''Date'', Datetime64 [Some (2024, 1, 1)]), (''Credit'', Float64 [5])]
     = Inl KeyError \<and>
   weekly_summary_branch colsum [(''Date'', Datetime64 [Some (2024, 1, 1)]), (''Credit'', Float64 [5])]
     = Inl KeyError"
  by code_simp

section \<open>The store after a click on Process PDF\<close>

text \<open>
  Claim C8. When processing returns a table that is not empty, the store becomes that table
  and success is reported. When it returns no table or an empty one, or ends in an exception,
  the session is exactly what it was before the click. The query is never touched.
\<close>

theorem failed_processing_keeps_store:
  "(process_pdf_data num dt file = Inr (Some d) \<and> \<not> empty d \<longrightarrow>
      process_button num dt st file = (st\<lparr>session_df := Some d\<rparr>, Success)) \<and>
   ((\<forall>d. process_pdf_data num dt file = Inr (Some d) \<longrightarrow> empty d) \<longrightarrow>
      fst (process_button num dt st file) = st) \<and>
   session_query (fst (process_button num dt st file)) = session_query st"
  by (auto simp: process_button_def split: sum.splits option.splits)

text \<open>
  A session that holds a store: with a wrong password the processing ends in an uncaught
  AttributeError and the session is as it was; a statement with one Debit row replaces the
  store.
\<close>

theorem failed_processing_keeps_store_witness:
  "process_pdf_data decimal mdy PasswordIncorrect = Inl AttributeError \<and>
   fst (process_button decimal mdy
          \<lparr>session_df = Some [(''Debit'', Float64 [1])], session_query = ''total_spent''\<rparr>
          PasswordIncorrect)
     = \<lparr>session_df = Some [(''Debit'', Float64 [1])], session_query = ''total_spent''\<rparr> \<and>
   process_pdf_data decimal mdy (Pdf [Some ([''Debit''], [[Some ''7'']])])
     = Inr (Some [(''Debit'', Float64 [7])]) \<and>
   \<not> empty [(''Debit'', Float64 [7])] \<and>
   process_button decimal mdy
          \<lparr>session_df = Some [(''Debit'', Float64 [1])], session_query = ''total_spent''\<rparr>
          (Pdf [Some ([''Debit''], [[Some ''7'']])])
     = (\<lparr>session_df = Some [(''Debit'', Float64 [7])], session_query = ''total_spent''\<rparr>, Success)"
proof -
  let ?st = "\<lparr>session_df = Some [(''Debit'', Float64 [1])], session_query = ''total_spent''\<rparr>"
  let ?file = "Pdf [Some ([''Debit''], [[Some ''7'']])]"
  note t = failed_processing_keeps_store [of decimal mdy PasswordIncorrect _ ?st]
    and u = failed_processing_keeps_store [of decimal mdy ?file "[(''Debit'', Float64 [7])]" ?st]
  have a: "\<forall>d. process_pdf_data decimal mdy PasswordIncorrect = Inr (Some d) \<longrightarrow> empty d"
    by (simp add: process_pdf_data_def)
  have b: "process_pdf_data decimal mdy ?file = Inr (Some [(''Debit'', Float64 [7])])"
    by code_simp
  have c: "\<not> empty [(''Debit'', Float64 [7])]" by code_simp
  from t a have x: "fst (process_button decimal mdy ?st PasswordIncorrect) = ?st" by blast
  from u b c have y: "process_button decimal mdy ?st ?file
      = (?st\<lparr>session_df := Some [(''Debit'', Float64 [7])]\<rparr>, Success)" by blast
  have n: "process_pdf_data decimal mdy PasswordIncorrect = Inl AttributeError"
    by (simp add: process_pdf_data_def)
  from n x b c y show ?thesis by simp
qed

section \<open>The amount filter\<close>

text \<open>
  Claim C10. The upper bound is applied only when it is given and greater than 0, so with a
  negative upper bound the call returns what it returns with the upper bound 0, and what it
  returns with no upper bound at all.
\<close>

theorem negative_max_is_no_bound:
  "mx < 0 \<Longrightarrow>
   filter_by_amount df mn (Some mx) col = filter_by_amount df mn (Some 0) col \<and>
   filter_by_amount df mn (Some mx) col = filter_by_amount df mn None col"
  by (auto simp: filter_by_amount_def Let_def split: list.splits prod.splits column.splits)

text \<open>
  With the lower bound 1 and the upper bound -5 the rows with 3 and 8 are returned, not the
  empty range.
\<close>

theorem negative_max_is_no_bound_witness:
  "(- 5 :: rat) < 0 \<and>
   filter_by_amount [(''Debit'', Float64 [3, 0, 8])] (Some 1) (Some (- 5)) (Some ''Debit'')
     = filter_by_amount [(''Debit'', Float64 [3, 0, 8])] (Some 1) (Some 0) (Some ''Debit'') \<and>
   filter_by_amount [(''Debit'', Float64 [3, 0, 8])] (Some 1) (Some (- 5)) (Some ''Debit'')
     = Inr [(''Debit'', Float64 [3, 8])]"
proof -
  have h: "(- 5 :: rat) < 0" by simp
  have e: "filter_by_amount [(''Debit'', Float64 [3, 0, 8])] (Some 1) None (Some ''Debit'')
     = Inr [(''Debit'', Float64 [3, 8])]" by code_simp
  note t = negative_max_is_no_bound
    [OF h, of "[(''Debit'', Float64 [3, 0, 8])]" "Some 1" "Some ''Debit''"]
  note x = t [THEN conjunct1]
  have y: "filter_by_amount [(''Debit'', Float64 [3, 0, 8])] (Some 1) (Some (- 5)) (Some ''Debit'')
     = Inr [(''Debit'', Float64 [3, 8])]"
    using t [THEN conjunct2] unfolding e .
  show ?thesis by (rule conjI [OF h conjI [OF x y]])
qed

text \<open>
  Claim C7. On a store in which the chosen label names one numeric column with the values
  \<open>vals\<close>: with an upper bound above 0 the rows kept are those with \<open>mn \<le> v \<le> mx\<close>; with
  the upper bound 0, or none, those with \<open>mn \<le> v\<close>; a lower bound left out is 0; so the
  bounds 0 and 0 keep the rows with \<open>0 \<le> v\<close>. Keeping the rows of a test \<open>P\<close> leaves in the
  chosen column exactly the values that pass \<open>P\<close>, in their order.
\<close>

theorem filter_by_amount_range:
  assumes "getitem df col = [(c, Float64 vals)]"
  shows
  "(0 < mx \<longrightarrow> filter_by_amount df (Some mn) (Some mx) (Some col)
      = Inr (select_rows (map (\<lambda>v. mn \<le> v \<and> v \<le> mx) vals) df)) \<and>
   filter_by_amount df (Some mn) (Some 0) (Some col)
      = Inr (select_rows (map (\<lambda>v. mn \<le> v) vals) df) \<and>
   filter_by_amount df (Some mn) None (Some col)
      = Inr (select_rows (map (\<lambda>v. mn \<le> v) vals) df) \<and>
   filter_by_amount df None mxo (Some col) = filter_by_amount df (Some 0) mxo (Some col) \<and>
   filter_by_amount df (Some 0) (Some 0) (Some col)
      = Inr (select_rows (map (\<lambda>v. 0 \<le> v) vals) df) \<and>
   (\<forall>P. getitem (select_rows (map P vals) df) col = [(c, Float64 (filter P vals))])"
proof -
  have k: "col \<in> set (map fst df)" using assms by (rule getitem_single)
  have s: "getitem (select_rows (map P vals) df) col = [(c, Float64 (filter P vals))]" for P
  proof -
    have "getitem (select_rows (map P vals) df) col = select_rows (map P vals) (getitem df col)"
      by (rule getitem_select_rows)
    also have "\<dots> = select_rows (map P vals) [(c, Float64 vals)]" by (simp only: assms)
    also have "\<dots> = [(c, Float64 (filter P vals))]"
      by (simp add: select_rows_def sel_map_filter)
    finally show ?thesis .
  qed
  from k s show ?thesis
    by (simp add: filter_by_amount_def Let_def assms)
qed

text \<open>
  A store of three rows with the debits 5, 0 and 20: the bounds 1 and 10 keep the first row,
  the bounds 0 and 0 keep all three.
\<close>

theorem filter_by_amount_range_witness:
  "getitem [(''Reference'', Object [Str ''a'', Str ''b'', Str ''c'']), (''Debit'', Float64 [5, 0, 20])]
      ''Debit'' = [(''Debit'', Float64 [5, 0, 20])] \<and>
   (0 :: rat) < 10 \<and>
   filter_by_amount [(''Reference'', Object [Str ''a'', Str ''b'', Str ''c'']), (''Debit'', Float64 [5, 0, 20])]
      (Some 1) (Some 10) (Some ''Debit'')
      = Inr [(''Reference'', Object [Str ''a'']), (''Debit'', Float64 [5])] \<and>
   filter_by_amount [(''Reference'', Object [Str ''a'', Str ''b'', Str ''c'']), (''Debit'', Float64 [5, 0, 20])]
      (Some 0) (Some 0) (Some ''Debit'')
      = Inr [(''Reference'', Object [Str ''a'', Str ''b'', Str ''c'']), (''Debit'', Float64 [5, 0, 20])]"
proof -
  let ?st = "[(''Reference'', Object [Str ''a'', Str ''b'', Str ''c'']), (''Debit'', Float64 [5, 0, 20])]"
  have g: "getitem ?st ''Debit'' = [(''Debit'', Float64 [5, 0, 20])]" by code_simp
  have p: "(0 :: rat) < 10" by simp
  note t = filter_by_amount_range [OF g, of 10 1]
  have r1: "select_rows (map (\<lambda>v. 1 \<le> v \<and> v \<le> 10) [5, 0, 20 :: rat]) ?st
      = [(''Reference'', Object [Str ''a'']), (''Debit'', Float64 [5])]" by code_simp
  have r2: "select_rows (map (\<lambda>v. 0 \<le> v) [5, 0, 20 :: rat]) ?st = ?st" by code_simp
  have x: "filter_by_amount ?st (Some 1) (Some 10) (Some ''Debit'')
      = Inr [(''Reference'', Object [Str ''a'']), (''Debit'', Float64 [5])]"
    using t [THEN conjunct1, THEN mp, OF p] unfolding r1 .
  have y: "filter_by_amount ?st (Some 0) (Some 0) (Some ''Debit'') = Inr ?st"
    using t [THEN conjunct2, THEN conjunct2, THEN conjunct2, THEN conjunct2, THEN conjunct1]
    unfolding r2 .
  show ?thesis by (rule conjI [OF g conjI [OF p conjI [OF x y]]])
qed

section \<open>The largest sums by Reference\<close>

lemma insort_key_stable:
  fixes f :: "'k::linorder \<times> 'v \<Rightarrow> 'o::linorder"
  assumes "sorted_wrt (\<lambda>p q. f p < f q \<or> (f p = f q \<and> fst p < fst q)) ys"
    and "\<forall>y\<in>set ys. fst x < fst y"
  shows "sorted_wrt (\<lambda>p q. f p < f q \<or> (f p = f q \<and> fst p < fst q)) (insort_key f x ys)"
  using assms
proof (induction ys)
  case Nil
  then show ?case by simp
next
  case (Cons y ys)
  let ?R = "\<lambda>p q. f p < f q \<or> (f p = f q \<and> fst p < fst q)"
  from Cons.prems have s: "sorted_wrt ?R ys" and yz: "\<forall>z\<in>set ys. ?R y z"
    and xy: "fst x < fst y" and xz: "\<forall>z\<in>set ys. fst x < fst z" by auto
  show ?case
  proof (cases "f x \<le> f y")
    case True
    have "?R x z" if "z \<in> set (y # ys)" for z
    proof -
      have "f y \<le> f z" using that yz by auto
      with True have "f x \<le> f z" by simp
      moreover have "fst x < fst z" using that xy xz by auto
      ultimately show ?thesis by auto
    qed
    then have "\<forall>z\<in>set (y # ys). ?R x z" by blast
    moreover have "insort_key f x (y # ys) = x # y # ys" using True by simp
    ultimately show ?thesis using Cons.prems(1) by simp
  next
    case False
    then have i: "insort_key f x (y # ys) = y # insort_key f x ys" by simp
    have a: "sorted_wrt ?R (insort_key f x ys)" using Cons.IH s xz by blast
    have "?R y z" if "z \<in> set (insort_key f x ys)" for z
    proof -
      from that have "z = x \<or> z \<in> set ys" by (simp add: set_insort_key)
      then show ?thesis using False yz by auto
    qed
    then have b: "\<forall>z\<in>set (insort_key f x ys). ?R y z" by blast
    show ?thesis unfolding i using a b by simp
  qed
qed

lemma sort_key_stable:
  fixes f :: "'k::linorder \<times> 'v \<Rightarrow> 'o::linorder"
  assumes "sorted_wrt (<) (map fst xs)"
  shows "sorted_wrt (\<lambda>p q. f p < f q \<or> (f p = f q \<and> fst p < fst q)) (sort_key f xs)"
  using assms
proof (induction xs)
  case Nil
  show ?case by simp
next
  case (Cons x xs)
  from Cons.prems have s: "sorted_wrt (<) (map fst xs)" and l: "\<forall>y\<in>set xs. fst x < fst y"
    by auto
  have e: "sort_key f (x # xs) = insort_key f x (sort_key f xs)" by simp
  have m: "\<forall>y\<in>set (sort_key f xs). fst x < fst y" using l by simp
  show ?case unfolding e using Cons.IH [OF s] m by (rule insort_key_stable)
qed

lemma str_keys:
  "set (concat (map (\<lambda>c. case c of Str s \<Rightarrow> [s] | _ \<Rightarrow> []) keys)) = {s. Str s \<in> set keys}"
  by (induction keys) (auto split: obj.splits)

lemma groupby_sum_keys: "sorted_wrt (<) (map fst (groupby_sum t keys vals))"
  by (simp add: groupby_sum_def comp_def strict_sorted_iff)

lemma groupby_sum_iff:
  "p \<in> set (groupby_sum t keys vals) \<longleftrightarrow>
   Str (fst p) \<in> set keys \<and> snd p = t (rows_of keys vals (Str (fst p)))"
  by (cases p) (auto simp: groupby_sum_def str_keys)

lemma sort_key_descending:
  "sorted_wrt (\<lambda>p q. snd q \<le> snd p) (sort_key (\<lambda>p. - snd p) (s :: series))"
proof -
  have "sorted (map (\<lambda>p. - snd p) (sort_key (\<lambda>p. - snd p) s))" by (rule sorted_sort_key)
  then show ?thesis by (simp add: sorted_wrt_map)
qed

lemma stable_order:
  "sorted_wrt (\<lambda>p q. snd q < snd p \<or> (snd p = snd q \<and> fst p < fst q))
     (sort_key (\<lambda>p. - snd p) (groupby_sum t keys vals))"
proof -
  have "sorted_wrt (\<lambda>p q. - snd p < - snd q \<or> (- snd p = - snd q \<and> fst p < fst q))
      (sort_key (\<lambda>p. - snd p) (groupby_sum t keys vals))"
    using groupby_sum_keys by (rule sort_key_stable)
  then show ?thesis by simp
qed

lemma sorted_wrt_take_drop:
  assumes "sorted_wrt R L" and "q \<in> set (take k L)" and "p \<in> set (drop k L)"
  shows "R q p"
proof -
  have "sorted_wrt R (take k L @ drop k L)" using assms(1) by simp
  then show ?thesis using assms(2,3) unfolding sorted_wrt_append by blast
qed

lemma left_out_in_drop:
  assumes "p \<in> set L" and "p \<notin> set (take k L)"
  shows "p \<in> set (drop k L)"
proof -
  have "set L = set (take k L) \<union> set (drop k L)"
    by (metis append_take_drop_id set_append)
  with assms show ?thesis by blast
qed

lemma largest_left_out:
  fixes L :: series
  assumes s: "sorted_wrt (\<lambda>p q. snd q \<le> snd p) L" and m: "p \<in> set L" and pos: "0 < snd p"
    and o: "p \<notin> set (filter (\<lambda>p. 0 < snd p) (take k L))"
  shows "length (filter (\<lambda>p. 0 < snd p) (take k L)) = k"
    and "\<forall>q\<in>set (filter (\<lambda>p. 0 < snd p) (take k L)). snd p \<le> snd q"
proof -
  from o pos have "p \<notin> set (take k L)" by simp
  with m have d: "p \<in> set (drop k L)" by (rule left_out_in_drop)
  have le: "snd p \<le> snd q" if "q \<in> set (take k L)" for q
    using sorted_wrt_take_drop [OF s that d] .
  have "0 < snd q" if "q \<in> set (take k L)" for q using le [OF that] pos by simp
  then have f: "filter (\<lambda>p. 0 < snd p) (take k L) = take k L" by simp
  from d have "k < length L" by (cases "k < length L") auto
  then have "length (take k L) = k" by simp
  with f show "length (filter (\<lambda>p. 0 < snd p) (take k L)) = k" by simp
  from le f show "\<forall>q\<in>set (filter (\<lambda>p. 0 < snd p) (take k L)). snd p \<le> snd q" by simp
qed

lemma nlargest_take:
  "nlargest sort_values n s =
     take (nat n) (if length s \<le> nat n then sort_values s else sort_key (\<lambda>p. - snd p) s)"
  by (simp add: nlargest_def)

lemma top_sums_frame:
  assumes "getitem df ''Reference'' = [(r, Object refs)]"
    and "getitem df col = [(b, Float64 vals)]"
  shows "top_sums colsum sort_values col df n
     = Inr (filter (\<lambda>p. 0 < snd p)
              (nlargest sort_values n (groupby_sum (colsum col) refs vals)))"
proof -
  have "''Reference'' \<in> set (map fst df)" "col \<in> set (map fst df)"
    using assms by (auto dest: getitem_single(3))
  then show ?thesis by (simp add: top_sums_def assms)
qed

lemma top_sums_props:
  fixes colsum :: "string \<Rightarrow> rat list \<Rightarrow> rat"
  defines "grp \<equiv> \<lambda>col refs vals k. colsum col (rows_of refs vals (Str k))"
  assumes perm: "mset (sort_values (groupby_sum (colsum col) refs vals))
                   = mset (groupby_sum (colsum col) refs vals)"
    and desc: "sorted_wrt (\<lambda>p q. snd q \<le> snd p)
                 (sort_values (groupby_sum (colsum col) refs vals))"
    and out: "out = filter (\<lambda>p. 0 < snd p)
                (nlargest sort_values n (groupby_sum (colsum col) refs vals))"
  shows "length out \<le> nat n"
    and "distinct (map fst out)"
    and "\<forall>p\<in>set out. 0 < snd p \<and> Str (fst p) \<in> set refs \<and> snd p = grp col refs vals (fst p)"
    and "\<forall>k. Str k \<in> set refs \<and> 0 < grp col refs vals k \<and> k \<notin> fst ` set out \<longrightarrow>
           length out = nat n \<and> (\<forall>q\<in>set out. grp col refs vals k \<le> snd q)"
    and "sorted_wrt (\<lambda>p q. snd q \<le> snd p) out"
    and "nat n < length (groupby_sum (colsum col) refs vals) \<longrightarrow>
           sorted_wrt (\<lambda>p q. snd q < snd p \<or> (snd p = snd q \<and> fst p < fst q)) out \<and>
           (\<forall>k. Str k \<in> set refs \<and> 0 < grp col refs vals k \<and> k \<notin> fst ` set out \<longrightarrow>
              (\<forall>q\<in>set out. grp col refs vals k < snd q \<or>
                            (grp col refs vals k = snd q \<and> fst q < k)))"
proof -
  let ?g = "groupby_sum (colsum col) refs vals"
  let ?L = "if length ?g \<le> nat n then sort_values ?g else sort_key (\<lambda>p. - snd p) ?g"
  let ?T = "take (nat n) ?L"
  have o: "out = filter (\<lambda>p. 0 < snd p) ?T" unfolding out nlargest_take ..
  have mL: "mset ?L = mset ?g" using perm by simp
  then have sL: "set ?L = set ?g" by (rule mset_eq_setD)
  have "distinct (map fst ?g)" using groupby_sum_keys [of "colsum col" refs vals]
    by (simp add: strict_sorted_iff)
  moreover have "mset (map fst ?L) = mset (map fst ?g)" using mL by (metis mset_map)
  ultimately have dL: "distinct (map fst ?L)" by (metis mset_eq_imp_distinct_iff)
  have dsL: "sorted_wrt (\<lambda>p q. snd q \<le> snd p) ?L"
    using desc sort_key_descending [of ?g] by simp
  have mem: "(k, grp col refs vals k) \<in> set ?L" if "Str k \<in> set refs" for k
    unfolding sL grp_def using that by (simp add: groupby_sum_iff)
  show "length out \<le> nat n" unfolding o
    using length_filter_le [of "\<lambda>p. 0 < snd p" ?T] by simp
  have "distinct (map fst ?T)" using dL by (simp add: take_map [symmetric] del: take_map)
  then show "distinct (map fst out)" unfolding o by (rule distinct_map_filter)
  show "\<forall>p\<in>set out. 0 < snd p \<and> Str (fst p) \<in> set refs \<and> snd p = grp col refs vals (fst p)"
  proof
    fix p assume p: "p \<in> set out"
    then have pos: "0 < snd p" unfolding o by simp
    from p have "p \<in> set ?T" unfolding o by simp
    then have "p \<in> set ?L" by (rule in_set_takeD)
    then have "p \<in> set ?g" unfolding sL .
    with pos show "0 < snd p \<and> Str (fst p) \<in> set refs \<and> snd p = grp col refs vals (fst p)"
      unfolding grp_def by (simp add: groupby_sum_iff)
  qed
  show "\<forall>k. Str k \<in> set refs \<and> 0 < grp col refs vals k \<and> k \<notin> fst ` set out \<longrightarrow>
           length out = nat n \<and> (\<forall>q\<in>set out. grp col refs vals k \<le> snd q)"
  proof (intro allI impI)
    fix k assume a: "Str k \<in> set refs \<and> 0 < grp col refs vals k \<and> k \<notin> fst ` set out"
    let ?p = "(k, grp col refs vals k)"
    from a have m: "?p \<in> set ?L" using mem by blast
    from a have pos: "0 < snd ?p" by simp
    from a have no: "?p \<notin> set (filter (\<lambda>p. 0 < snd p) ?T)" unfolding o [symmetric] by force
    from largest_left_out [OF dsL m pos no]
    show "length out = nat n \<and> (\<forall>q\<in>set out. grp col refs vals k \<le> snd q)"
      unfolding o by simp
  qed
  show "sorted_wrt (\<lambda>p q. snd q \<le> snd p) out" unfolding o
    using dsL by (intro sorted_wrt_filter sorted_wrt_take)
  show "nat n < length ?g \<longrightarrow>
           sorted_wrt (\<lambda>p q. snd q < snd p \<or> (snd p = snd q \<and> fst p < fst q)) out \<and>
           (\<forall>k. Str k \<in> set refs \<and> 0 < grp col refs vals k \<and> k \<notin> fst ` set out \<longrightarrow>
              (\<forall>q\<in>set out. grp col refs vals k < snd q \<or>
                            (grp col refs vals k = snd q \<and> fst q < k)))"
  proof
    assume n: "nat n < length ?g"
    let ?S = "sort_key (\<lambda>p. - snd p) ?g"
    let ?R = "\<lambda>p q. snd q < snd p \<or> (snd p = snd q \<and> fst p < fst q)"
    from n have L: "?L = ?S" by simp
    have st: "sorted_wrt ?R ?S" by (rule stable_order)
    have o': "out = filter (\<lambda>p. 0 < snd p) (take (nat n) ?S)" using o L by simp
    have s1: "sorted_wrt ?R out" unfolding o'
      using st by (intro sorted_wrt_filter sorted_wrt_take)
    have s2: "\<forall>k. Str k \<in> set refs \<and> 0 < grp col refs vals k \<and> k \<notin> fst ` set out \<longrightarrow>
              (\<forall>q\<in>set out. grp col refs vals k < snd q \<or>
                            (grp col refs vals k = snd q \<and> fst q < k))"
    proof (intro allI impI ballI)
      fix k q
      assume a: "Str k \<in> set refs \<and> 0 < grp col refs vals k \<and> k \<notin> fst ` set out"
        and q: "q \<in> set out"
      let ?p = "(k, grp col refs vals k)"
      from a have "?p \<in> set ?L" using mem by blast
      then have m: "?p \<in> set ?S" using L by simp
      from a have "?p \<notin> set out" by force
      then have "?p \<notin> set (take (nat n) ?S)" unfolding o' using a by simp
      with m have d: "?p \<in> set (drop (nat n) ?S)" by (rule left_out_in_drop)
      from q have t: "q \<in> set (take (nat n) ?S)" unfolding o' by simp
      from sorted_wrt_take_drop [OF st t d]
      show "grp col refs vals k < snd q \<or> (grp col refs vals k = snd q \<and> fst q < k)"
        by auto
    qed
    from s1 s2 show "sorted_wrt ?R out \<and>
           (\<forall>k. Str k \<in> set refs \<and> 0 < grp col refs vals k \<and> k \<notin> fst ` set out \<longrightarrow>
              (\<forall>q\<in>set out. grp col refs vals k < snd q \<or>
                            (grp col refs vals k = snd q \<and> fst q < k)))" by (rule conjI)
  qed
qed

text \<open>
  Claim C4, as the code has it. The store has one Reference column and one numeric Debit
  (Credit) column, and the library's descending sort returns the groups rearranged so that
  no group has a smaller sum than a later one. Then the call returns a series, and for the
  series \<open>out\<close> it returns:

  \<^item> it has at most \<open>n\<close> entries and no Reference twice;

  \<^item> each entry is a Reference of the store with the library's sum of the column over the
    rows of that Reference, and this sum is greater than 0;

  \<^item> a Reference with a sum greater than 0 is left out only when \<open>n\<close> entries are
    returned and none of them has a smaller sum: the entries are the \<open>n\<close> largest sums
    that are greater than 0;

  \<^item> no entry has a smaller sum than a later one;

  \<^item> when \<open>n\<close> is less than the number of groups, entries with equal sums are in
    ascending order of Reference, the order in which \<^verbatim>\<open>groupby\<close> yields the groups, and a
    group left out with the sum of an entry has the greater Reference; otherwise the order
    of equal sums is the one the library's sort gives them.
\<close>

theorem top_sums_order:
  assumes "getitem df ''Reference'' = [(r, Object refs)]"
    and "getitem df col = [(b, Float64 vals)]"
    and "col = ''Debit'' \<or> col = ''Credit''"
    and "mset (sort_values (groupby_sum (colsum col) refs vals))
           = mset (groupby_sum (colsum col) refs vals)"
    and "sorted_wrt (\<lambda>p q. snd q \<le> snd p) (sort_values (groupby_sum (colsum col) refs vals))"
  shows
  "(\<exists>out. (if col = ''Debit'' then get_top_debits colsum sort_values df n
           else get_top_credits colsum sort_values df n) = Inr out) \<and>
   (\<forall>out. (if col = ''Debit'' then get_top_debits colsum sort_values df n
           else get_top_credits colsum sort_values df n) = Inr out \<longrightarrow>
      length out \<le> nat n \<and>
      distinct (map fst out) \<and>
      (\<forall>p\<in>set out. 0 < snd p \<and> Str (fst p) \<in> set refs \<and>
         snd p = colsum col (rows_of refs vals (Str (fst p)))) \<and>
      (\<forall>k. Str k \<in> set refs \<and> 0 < colsum col (rows_of refs vals (Str k)) \<and>
           k \<notin> fst ` set out \<longrightarrow>
         length out = nat n \<and>
         (\<forall>q\<in>set out. colsum col (rows_of refs vals (Str k)) \<le> snd q)) \<and>
      sorted_wrt (\<lambda>p q. snd q \<le> snd p) out \<and>
      (nat n < length (groupby_sum (colsum col) refs vals) \<longrightarrow>
         sorted_wrt (\<lambda>p q. snd q < snd p \<or> (snd p = snd q \<and> fst p < fst q)) out \<and>
         (\<forall>k. Str k \<in> set refs \<and> 0 < colsum col (rows_of refs vals (Str k)) \<and>
              k \<notin> fst ` set out \<longrightarrow>
            (\<forall>q\<in>set out. colsum col (rows_of refs vals (Str k)) < snd q \<or>
               (colsum col (rows_of refs vals (Str k)) = snd q \<and> fst q < k)))))"
proof -
  let ?r = "filter (\<lambda>p. 0 < snd p)
              (nlargest sort_values n (groupby_sum (colsum col) refs vals))"
  let ?f = "if col = ''Debit'' then get_top_debits colsum sort_values df n
            else get_top_credits colsum sort_values df n"
  have t: "top_sums colsum sort_values col df n = Inr ?r"
    using assms(1,2) by (rule top_sums_frame)
  have a: "?f = Inr ?r"
    using assms(3) t by (auto simp: get_top_debits_def get_top_credits_def)
  then have e: "\<exists>out. ?f = Inr out" by blast
  let ?P = "\<lambda>out. length out \<le> nat n \<and>
      distinct (map fst out) \<and>
      (\<forall>p\<in>set out. 0 < snd p \<and> Str (fst p) \<in> set refs \<and>
         snd p = colsum col (rows_of refs vals (Str (fst p)))) \<and>
      (\<forall>k. Str k \<in> set refs \<and> 0 < colsum col (rows_of refs vals (Str k)) \<and>
           k \<notin> fst ` set out \<longrightarrow>
         length out = nat n \<and>
         (\<forall>q\<in>set out. colsum col (rows_of refs vals (Str k)) \<le> snd q)) \<and>
      sorted_wrt (\<lambda>p q. snd q \<le> snd p) out \<and>
      (nat n < length (groupby_sum (colsum col) refs vals) \<longrightarrow>
         sorted_wrt (\<lambda>p q. snd q < snd p \<or> (snd p = snd q \<and> fst p < fst q)) out \<and>
         (\<forall>k. Str k \<in> set refs \<and> 0 < colsum col (rows_of refs vals (Str k)) \<and>
              k \<notin> fst ` set out \<longrightarrow>
            (\<forall>q\<in>set out. colsum col (rows_of refs vals (Str k)) < snd q \<or>
               (colsum col (rows_of refs vals (Str k)) = snd q \<and> fst q < k))))"
  note p = top_sums_props [where colsum = colsum and sort_values = sort_values and col = col
      and refs = refs and vals = vals and n = n, OF assms(4,5) refl]
  have c: "?P ?r"
    by (rule conjI [OF p(1) conjI [OF p(2) conjI [OF p(3) conjI [OF p(4) conjI [OF p(5) p(6)]]]]])
  have u: "\<forall>out. ?f = Inr out \<longrightarrow> ?P out"
  proof (intro allI impI)
    fix out assume "?f = Inr out"
    with a have r: "?r = out" by simp
    show "?P out" using c unfolding r .
  qed
  show ?thesis by (rule conjI [OF e u])
qed

text \<open>
  Five rows, one of them without a Reference: the groups are Food 50, Gift 0 and Rent 900.
  Asked for two entries, the function returns the two sums that are greater than 0, the
  larger first. Sums are taken exactly, which is what float64 gives on these values, and
  the sort of the library is taken to be the stable one.
\<close>

theorem top_sums_order_witness:
  "getitem [(''Reference'', Object [Str ''Rent'', Str ''Food'', Str ''Food'', Str ''Gift'', PyNone]),
            (''Debit'', Float64 [900, 20, 30, 0, 7])] ''Reference''
     = [(''Reference'', Object [Str ''Rent'', Str ''Food'', Str ''Food'', Str ''Gift'', PyNone])] \<and>
   getitem [(''Reference'', Object [Str ''Rent'', Str ''Food'', Str ''Food'', Str ''Gift'', PyNone]),
            (''Debit'', Float64 [900, 20, 30, 0, 7])] ''Debit''
     = [(''Debit'', Float64 [900, 20, 30, 0, 7])] \<and>
   nat 2 < length (groupby_sum sum_list
                     [Str ''Rent'', Str ''Food'', Str ''Food'', Str ''Gift'', PyNone]
                     [900, 20, 30, 0, 7]) \<and>
   get_top_debits (\<lambda>c. sum_list) (sort_key (\<lambda>p. - snd p))
        [(''Reference'', Object [Str ''Rent'', Str ''Food'', Str ''Food'', Str ''Gift'', PyNone]),
         (''Debit'', Float64 [900, 20, 30, 0, 7])] 2
     = Inr [(''Rent'', 900), (''Food'', 50)] \<and>
   length [(''Rent'', 900 :: rat), (''Food'', 50)] \<le> nat 2 \<and>
   sorted_wrt (\<lambda>p q. snd q \<le> snd p) [(''Rent'', 900 :: rat), (''Food'', 50)]"
proof -
  let ?refs = "[Str ''Rent'', Str ''Food'', Str ''Food'', Str ''Gift'', PyNone]"
  let ?vals = "[900, 20, 30, 0, 7 :: rat]"
  let ?st = "[(''Reference'', Object ?refs), (''Debit'', Float64 ?vals)]"
  let ?sv = "sort_key (\<lambda>p. - snd p) :: series \<Rightarrow> series"
  let ?cs = "(\<lambda>c. sum_list) :: string \<Rightarrow> rat list \<Rightarrow> rat"
  have g: "getitem ?st ''Reference'' = [(''Reference'', Object ?refs)]" by code_simp
  have h: "getitem ?st ''Debit'' = [(''Debit'', Float64 ?vals)]" by code_simp
  have k: "''Debit'' = ''Debit'' \<or> ''Debit'' = ''Credit''" by simp
  have m: "mset (?sv (groupby_sum (?cs ''Debit'') ?refs ?vals))
      = mset (groupby_sum (?cs ''Debit'') ?refs ?vals)" by simp
  have d: "sorted_wrt (\<lambda>p q. snd q \<le> snd p) (?sv (groupby_sum (?cs ''Debit'') ?refs ?vals))"
    by (rule sort_key_descending)
  have l: "nat 2 < length (groupby_sum sum_list ?refs ?vals)" by code_simp
  have e: "get_top_debits ?cs ?sv ?st 2 = Inr [(''Rent'', 900), (''Food'', 50)]" by code_simp
  then have e': "(if ''Debit'' = ''Debit'' then get_top_debits ?cs ?sv ?st 2
      else get_top_credits ?cs ?sv ?st 2) = Inr [(''Rent'', 900), (''Food'', 50)]" by simp
  note t = top_sums_order [where colsum = ?cs and sort_values = ?sv and n = 2, OF g h k m d,
      THEN conjunct2, THEN spec, THEN mp, OF e']
  note x = t [THEN conjunct1]
  note y = t [THEN conjunct2, THEN conjunct2, THEN conjunct2, THEN conjunct2, THEN conjunct1]
  show ?thesis by (rule conjI [OF g conjI [OF h conjI [OF l conjI [OF e conjI [OF x y]]]]])
qed

text \<open>
  Two References with the same sum are both returned, so the order is not strictly
  descending. Two entries are asked for and there are three groups, so the sort of the
  library plays no part, and each group has one row, so nothing is added. The rows come in
  the order B, A, C; the entries come in the order A, B.
\<close>

theorem top_debits_tie:
  "get_top_debits (\<lambda>c. sum_list) (sort_key (\<lambda>p. - snd p))
     [(''Reference'', Object [Str ''B'', Str ''A'', Str ''C'']), (''Debit'', Float64 [5, 5, 1])] 2
     = Inr [(''A'', 5), (''B'', 5)] \<and>
   \<not> sorted_wrt (\<lambda>p q. snd q < snd p) [(''A'', 5 :: rat), (''B'', 5)]"
  by code_simp

section \<open>The free-text branch\<close>

lemma how_much_hint:
  "how_much colsum d q = Inr UsageHint \<longleftrightarrow> \<not> contains ''on'' q"
proof (cases "contains ''on'' q")
  case True
  then have "Suc 0 < length (split_on q)" using length_split_on [of q] by simp
  then have "how_much colsum d q \<noteq> Inr UsageHint"
    by (simp add: how_much_def Let_def split: sum.splits)
  with True show ?thesis by simp
next
  case False
  then have "split_on q = [q]" by (rule split_on_no_on)
  then have "how_much colsum d q = Inr UsageHint" by (simp add: how_much_def Let_def)
  with False show ?thesis by simp
qed

text \<open>
  Claim C5 says that a query with no remainder after \<^verbatim>\<open>on\<close> gets the usage hint. In the
  code the hint is the \<^verbatim>\<open>else\<close> of \<^verbatim>\<open>len(parts) > 1\<close>, so it is given exactly to the queries
  that do not contain \<^verbatim>\<open>on\<close>, whatever the store. The query
  \<^verbatim>\<open>how much did i spend on\<close> splits into two parts, the second empty: the search term is
  the empty string, every Reference that is present contains it, and the answer is
  "You spent ... on" with the library's sum of Debit over all these rows.
\<close>

theorem how_much_empty_term:
  "(how_much colsum d q = Inr UsageHint \<longleftrightarrow> \<not> contains ''on'' q) \<and>
   split_on ''how much did i spend on'' = [''how much did i spend '', ''''] \<and>
   how_much colsum
     [(''Reference'', Object [Str ''Grocer'', Str ''Rent'', PyNone]),
      (''Debit'', Float64 [5, 10, 3])] ''how much did i spend on''
     = Inr (Spent (colsum ''Debit'' [5, 10]) ''''
              [(''Reference'', Object [Str ''Grocer'', Str ''Rent'']), (''Debit'', Float64 [5, 10])])"
proof -
  have a: "how_much colsum d q = Inr UsageHint \<longleftrightarrow> \<not> contains ''on'' q"
    by (rule how_much_hint)
  have b: "split_on ''how much did i spend on'' = [''how much did i spend '', '''']"
    by code_simp
  have c: "how_much colsum
     [(''Reference'', Object [Str ''Grocer'', Str ''Rent'', PyNone]),
      (''Debit'', Float64 [5, 10, 3])] ''how much did i spend on''
     = Inr (Spent (colsum ''Debit'' [5, 10]) ''''
              [(''Reference'', Object [Str ''Grocer'', Str ''Rent'']), (''Debit'', Float64 [5, 10])])"
    by code_simp
  show ?thesis by (rule conjI [OF a conjI [OF b c]])
qed

end
